theory Spec2Isabelle
  imports Complex_Main
begin

section \<open>Sports video analytics: detector, annotator, video pipeline, submission\<close>

text \<open>
  A shallow embedding of \<^verbatim>\<open>app/models/yolo_detector.py\<close>,
  \<^verbatim>\<open>app/utils/videoprocessor.py\<close> and the video submission handler of
  \<^verbatim>\<open>app/main.py\<close>.

  Conventions.
  \<^item> Python floats are modelled by exact rationals (\<open>rat\<close>): rounding is not modelled.
  \<^item> Python exceptions are values of the type \<open>error\<close>; a function that can raise
    returns \<open>error + 'a\<close>, and a function whose effects are visible after a raise returns
    the outcome together with the state it leaves behind.
  \<^item> Everything the code obtains from outside (the YOLO model, OpenCV's decoding of a file,
    text metrics, the wall clock, number formatting) is a field of the record \<open>env\<close>.
\<close>

subsection \<open>Errors and Python helpers\<close>

datatype error =
    ValueError string
  | KeyError string
  | ZeroDivisionError
  | CvError string
  | ModelError string
  | TypeError string
  | OverflowError string
  | OSError string
  | HTTPException nat string

text \<open>Python's \<^verbatim>\<open>int(x)\<close> on a float truncates towards zero.\<close>

definition py_int :: "rat \<Rightarrow> int" where
  "py_int x = (if 0 \<le> x then \<lfloor>x\<rfloor> else \<lceil>x\<rceil>)"

text \<open>Python's \<^verbatim>\<open>a / b\<close> on numbers raises on a zero divisor.\<close>

definition py_truediv :: "rat \<Rightarrow> rat \<Rightarrow> error + rat" where
  "py_truediv a b = (if b = 0 then Inl ZeroDivisionError else Inr (a / b))"

text \<open>Python's \<^verbatim>\<open>a % b\<close> on integers: the sign follows the divisor, as HOL's \<open>mod\<close>
  on \<open>int\<close> does; a zero divisor raises.\<close>

definition py_mod :: "int \<Rightarrow> int \<Rightarrow> error + int" where
  "py_mod a b = (if b = 0 then Inl ZeroDivisionError else Inr (a mod b))"

subsection \<open>Frames and drawing\<close>

type_synonym color = "nat \<times> nat \<times> nat"
type_synonym point = "int \<times> int"

text \<open>
  A frame is a decoded image: its shape, an identifier of the decoded pixel data, and the
  OpenCV drawing calls applied to it so far, oldest first.
  \<open>Rectangle pt1 pt2 color thickness\<close> is \<^verbatim>\<open>cv2.rectangle\<close> (thickness \<open>-1\<close> fills),
  \<open>PutText text org scale color thickness\<close> is \<^verbatim>\<open>cv2.putText\<close> (org is the bottom-left
  corner of the text), and \<open>BlendBand h a b cmds\<close> replaces the top \<open>h\<close> rows by
  \<^verbatim>\<open>cv2.addWeighted(rows, a, overlay, b, 0)\<close> where the overlay is a black image
  carrying \<open>cmds\<close>.
\<close>

datatype draw_cmd =
    Rectangle point point color int
  | PutText string point rat color int
  | BlendBand nat rat rat "draw_cmd list"

record frame =
  rows :: nat
  cols :: nat
  pixels :: nat
  drawn :: "draw_cmd list"

subsection \<open>Detections\<close>

record detection =
  det_id :: nat
  det_class :: string
  class_id :: int
  confidence :: rat
  bbox :: "rat \<times> rat \<times> rat \<times> rat"
  center :: "rat \<times> rat"
  area :: rat
  sports_role :: "string option"

text \<open>One row of the model's output: the box, its confidence and its class.\<close>

type_synonym raw_box = "(rat \<times> rat \<times> rat \<times> rat) \<times> rat \<times> int"

text \<open>The dictionary returned by \<^verbatim>\<open>detect_frame\<close>; a key that is absent is \<open>None\<close>.\<close>

record detect_result =
  detections :: "detection list"
  inference_time :: rat
  frame_shape :: "(nat \<times> nat \<times> nat) option"
  model_confidence :: "rat option"
  error_msg :: "string option"

record detector =
  total_inferences :: nat
  total_inference_time :: rat

subsection \<open>The environment\<close>

datatype cap_prop =
  CAP_PROP_FPS | CAP_PROP_FRAME_WIDTH | CAP_PROP_FRAME_HEIGHT | CAP_PROP_FRAME_COUNT

record capture =
  cap_opened :: bool
  cap_get :: "cap_prop \<Rightarrow> rat"
  cap_frames :: "frame list"
  cap_released :: bool

record writer =
  wr_path :: string
  wr_fourcc :: string
  wr_fps :: int
  wr_size :: "int \<times> int"
  wr_opened :: bool
  wr_frames :: "frame list"
  wr_released :: bool

text \<open>
  \<open>yolo f conf iou\<close> is the call \<^verbatim>\<open>self.model(frame, conf=..., iou=..., verbose=False)\<close>:
  it raises, or returns a list of results, each with its boxes or \<^verbatim>\<open>None\<close>.
  \<open>yolo_names\<close> is \<^verbatim>\<open>self.model.names\<close>.
  \<open>VideoCapture path\<close> is what OpenCV makes of the file at \<open>path\<close>.
  \<open>writer_opens path fourcc fps size\<close> tells whether OpenCV can create the output container.
  \<open>getTextSize text\<close> is \<^verbatim>\<open>cv2.getTextSize(text, FONT_HERSHEY_SIMPLEX, 0.5, 2)[0]\<close>.
  \<open>format_float d x\<close> is \<^verbatim>\<open>f"{x:.df}"\<close> and \<open>str_int\<close> is \<^verbatim>\<open>str\<close> on an integer.
  \<open>py_lower\<close> is \<^verbatim>\<open>str.lower\<close>, which follows the Unicode case mapping.
  \<open>detect_elapsed f\<close> is the time \<^verbatim>\<open>detect_frame\<close> measures for the frame \<open>f\<close>,
  \<open>frame_elapsed n\<close> the time \<^verbatim>\<open>process_video\<close> measures around the detection of frame
  number \<open>n\<close>, \<open>total_elapsed\<close> the time it measures for the whole run.
  \<open>info_enabled\<close> is \<^verbatim>\<open>logger.isEnabledFor(logging.INFO)\<close> for the module logger of
  \<^verbatim>\<open>videoprocessor.py\<close>, a standard-library \<^verbatim>\<open>logging.Logger\<close>.
\<close>

record env =
  yolo :: "frame \<Rightarrow> rat \<Rightarrow> rat \<Rightarrow> error + (raw_box list option) list"
  yolo_names :: "int \<Rightarrow> string option"
  VideoCapture :: "string \<Rightarrow> capture"
  writer_opens :: "string \<Rightarrow> string \<Rightarrow> int \<Rightarrow> int \<times> int \<Rightarrow> bool"
  getTextSize :: "string \<Rightarrow> int \<times> int"
  format_float :: "nat \<Rightarrow> rat \<Rightarrow> string"
  str_int :: "int \<Rightarrow> string"
  py_lower :: "string \<Rightarrow> string"
  detect_elapsed :: "frame \<Rightarrow> rat"
  frame_elapsed :: "nat \<Rightarrow> rat"
  total_elapsed :: rat
  info_enabled :: bool

subsection \<open>\<^verbatim>\<open>SportsDetector\<close>\<close>

definition sports_classes :: "(int \<times> string) list" where
  "sports_classes =
     [(0, ''person''), (32, ''sports ball''), (36, ''skis''), (37, ''snowboard'')]"

definition confidence_threshold :: rat where
  "confidence_threshold = 1 / 2"

definition iou_threshold :: rat where
  "iou_threshold = 45 / 100"

text \<open>\<^verbatim>\<open>_classify_person_role\<close>: the role is read off the area alone.\<close>

definition classify_person_role :: "detection \<Rightarrow> string" where
  "classify_person_role d =
     (if area d > 5000 then ''player''
      else if area d > 2000 then ''referee_or_coach''
      else ''spectator_or_other'')"

text \<open>
  The body of the \<^verbatim>\<open>for i, (box, conf, cls_id) in enumerate(zip(...))\<close> loop for one row:
  \<open>None\<close> when the class is filtered out, the detection otherwise;
  \<^verbatim>\<open>self.model.names[cls_id]\<close> raises on an unknown class.
\<close>

definition make_detection :: "env \<Rightarrow> nat \<Rightarrow> raw_box \<Rightarrow> error + detection option" where
  "make_detection E i row =
     (case row of ((x1, y1, x2, y2), conf, cls_id) \<Rightarrow>
        if cls_id \<in> set (map fst sports_classes) \<or> cls_id = 0 then
          (case yolo_names E cls_id of
             None \<Rightarrow> Inl (KeyError ''names'')
           | Some nm \<Rightarrow>
               let d = \<lparr> det_id = i, det_class = nm, class_id = cls_id, confidence = conf,
                         bbox = (x1, y1, x2, y2),
                         center = ((x1 + x2) / 2, (y1 + y2) / 2),
                         area = (x2 - x1) * (y2 - y1),
                         sports_role = None \<rparr>;
                   d' = (if cls_id = 0 then d\<lparr>sports_role := Some (classify_person_role d)\<rparr>
                         else if cls_id = 32 then d\<lparr>sports_role := Some ''ball''\<rparr>
                         else d)
               in Inr (Some d'))
        else Inr None)"

fun extract_detections ::
  "env \<Rightarrow> nat \<Rightarrow> raw_box list \<Rightarrow> detection list \<Rightarrow> error + detection list" where
  "extract_detections E i [] acc = Inr acc"
| "extract_detections E i (row # rest) acc =
     (case make_detection E i row of
        Inl e \<Rightarrow> Inl e
      | Inr None \<Rightarrow> extract_detections E (Suc i) rest acc
      | Inr (Some d) \<Rightarrow> extract_detections E (Suc i) rest (acc @ [d]))"

text \<open>The \<^verbatim>\<open>try\<close> block of \<^verbatim>\<open>detect_frame\<close> up to the list of detections.\<close>

definition detect_body :: "env \<Rightarrow> frame \<Rightarrow> error + detection list" where
  "detect_body E f =
     (case yolo E f confidence_threshold iou_threshold of
        Inl e \<Rightarrow> Inl e
      | Inr results \<Rightarrow>
          (case results of
             [] \<Rightarrow> Inr []
           | result # _ \<Rightarrow>
               (case result of
                  None \<Rightarrow> Inr []
                | Some boxes \<Rightarrow> extract_detections E 0 boxes [])))"

definition str_error :: "error \<Rightarrow> string" where
  "str_error e =
     (case e of ValueError m \<Rightarrow> m | KeyError m \<Rightarrow> m | ZeroDivisionError \<Rightarrow> ''division by zero''
      | CvError m \<Rightarrow> m | ModelError m \<Rightarrow> m | TypeError m \<Rightarrow> m | OverflowError m \<Rightarrow> m | OSError m \<Rightarrow> m | HTTPException c m \<Rightarrow> m)"

text \<open>
  \<^verbatim>\<open>detect_frame\<close>: the metrics of the detector are updated on the success path only;
  the \<^verbatim>\<open>except Exception\<close> handler turns every raise of the body into a dictionary.
\<close>

definition detect_frame :: "env \<Rightarrow> detector \<Rightarrow> frame \<Rightarrow> detect_result \<times> detector" where
  "detect_frame E D f =
     (case detect_body E f of
        Inr dets \<Rightarrow>
          (\<lparr> detections = dets, inference_time = detect_elapsed E f,
             frame_shape = Some (rows f, cols f, 3),
             model_confidence = Some confidence_threshold,
             error_msg = None \<rparr>,
           D\<lparr> total_inferences := total_inferences D + 1,
              total_inference_time := total_inference_time D + detect_elapsed E f \<rparr>)
      | Inl e \<Rightarrow>
          (\<lparr> detections = [], inference_time = detect_elapsed E f,
             frame_shape = None, model_confidence = None,
             error_msg = Some (str_error e) \<rparr>,
           D))"

subsection \<open>The annotator: \<^verbatim>\<open>draw_detections\<close>\<close>

definition colors :: "(string \<times> color) list" where
  "colors = [(''person'', (0, 255, 0)), (''sports ball'', (0, 0, 255)),
             (''default'', (255, 255, 0))]"

definition color_of :: "string \<Rightarrow> color" where
  "color_of class_name = (case map_of colors class_name of Some c \<Rightarrow> c | None \<Rightarrow> (255, 255, 0))"

definition label_of :: "env \<Rightarrow> detection \<Rightarrow> string" where
  "label_of E det =
     (let label = det_class det @ '': '' @ format_float E 2 (confidence det)
      in case sports_role det of
           None \<Rightarrow> label
         | Some role \<Rightarrow> label @ '' ('' @ role @ '')'')"

text \<open>\<open>label_y\<close>: the baseline of the label, ten pixels above the box unless that would
  put the top of the text above the frame.\<close>

definition label_y :: "int \<Rightarrow> int \<times> int \<Rightarrow> int" where
  "label_y y1 label_size = max (y1 - 10) (snd label_size)"

text \<open>
  OpenCV converts the coordinates of a point to C \<^verbatim>\<open>int\<close>: a drawing call raises when a
  coordinate does not fit 32 bits.
\<close>

definition fits_c_int :: "int \<Rightarrow> bool" where
  "fits_c_int v = (- (2 ^ 31) \<le> v \<and> v < 2 ^ 31)"

definition cv2_rectangle :: "point \<Rightarrow> point \<Rightarrow> color \<Rightarrow> int \<Rightarrow> error + draw_cmd" where
  "cv2_rectangle pt1 pt2 c thickness =
     (if fits_c_int (fst pt1) \<and> fits_c_int (snd pt1) \<and> fits_c_int (fst pt2) \<and> fits_c_int (snd pt2)
      then Inr (Rectangle pt1 pt2 c thickness)
      else Inl (OverflowError ''integer overflow''))"

definition cv2_putText :: "string \<Rightarrow> point \<Rightarrow> rat \<Rightarrow> color \<Rightarrow> int \<Rightarrow> error + draw_cmd" where
  "cv2_putText text org scale c thickness =
     (if fits_c_int (fst org) \<and> fits_c_int (snd org)
      then Inr (PutText text org scale c thickness)
      else Inl (OverflowError ''integer overflow''))"

text \<open>The body of the \<^verbatim>\<open>for det in detections\<close> loop: the box, the filled label
  background, the label text, in this order; the first call that raises ends it.\<close>

definition draw_one :: "env \<Rightarrow> detection \<Rightarrow> error + draw_cmd list" where
  "draw_one E det =
     (case bbox det of (bx1, by1, bx2, by2) \<Rightarrow>
        let x1 = py_int bx1; y1 = py_int by1; x2 = py_int bx2; y2 = py_int by2;
            color = color_of (det_class det)
        in case cv2_rectangle (x1, y1) (x2, y2) color 2 of
             Inl e \<Rightarrow> Inl e
           | Inr box \<Rightarrow>
               let label = label_of E det;
                   label_size = getTextSize E label;
                   ly = label_y y1 label_size
               in case cv2_rectangle (x1, ly - snd label_size - 5)
                         (x1 + fst label_size, ly + 5) color (- 1) of
                    Inl e \<Rightarrow> Inl e
                  | Inr background \<Rightarrow>
                      (case cv2_putText label (x1, ly) (1 / 2) (255, 255, 255) 2 of
                         Inl e \<Rightarrow> Inl e
                       | Inr text \<Rightarrow> Inr [box, background, text]))"

fun draw_detections :: "env \<Rightarrow> frame \<Rightarrow> detection list \<Rightarrow> error + frame" where
  "draw_detections E annotated_frame [] = Inr annotated_frame"
| "draw_detections E annotated_frame (det # dets) =
     (case draw_one E det of
        Inl e \<Rightarrow> Inl e
      | Inr cmds \<Rightarrow>
          draw_detections E (annotated_frame\<lparr>drawn := drawn annotated_frame @ cmds\<rparr>) dets)"

subsection \<open>\<^verbatim>\<open>VideoProcessor\<close>\<close>

definition overlay_height :: nat where
  "overlay_height = 80"

text \<open>
  \<^verbatim>\<open>_add_frame_overlay\<close>. The slice \<^verbatim>\<open>overlay_frame[:overlay_height]\<close> has
  \<open>min (rows frame) 80\<close> rows and the overlay has 80, and \<^verbatim>\<open>cv2.addWeighted\<close> raises
  on operands of different sizes: a frame lower than the band raises.
\<close>

definition overlay_texts :: "env \<Rightarrow> nat \<Rightarrow> nat \<Rightarrow> rat \<Rightarrow> draw_cmd list" where
  "overlay_texts E frame_num detection_count frame_time =
     (let white = (255, 255, 255);
          text1 = ''Frame: '' @ str_int E (int frame_num);
          text2 = ''Detections: '' @ str_int E (int detection_count);
          text3 = ''Process Time: '' @ format_float E 3 frame_time @ ''s'';
          text4 = (if frame_time > 0 then ''FPS: '' @ format_float E 1 (1 / frame_time)
                   else ''FPS: --'')
      in [PutText text1 (10, 20) (6 / 10) white 2,
          PutText text2 (10, 45) (6 / 10) white 2,
          PutText text3 (250, 20) (6 / 10) white 2,
          PutText text4 (250, 45) (6 / 10) white 2])"

definition add_frame_overlay :: "env \<Rightarrow> frame \<Rightarrow> nat \<Rightarrow> nat \<Rightarrow> rat \<Rightarrow> error + frame" where
  "add_frame_overlay E frame frame_num detection_count frame_time =
     (let overlay = overlay_texts E frame_num detection_count frame_time
      in if min (rows frame) overlay_height \<noteq> overlay_height
         then Inl (CvError ''Sizes of input arguments do not match'')
         else Inr (frame\<lparr>drawn := drawn frame
                      @ [BlendBand overlay_height (7 / 10) (3 / 10) overlay]\<rparr>))"

text \<open>\<^verbatim>\<open>out.write(frame)\<close>: OpenCV drops the frame when the writer is not open.\<close>

definition wr_write :: "writer \<Rightarrow> frame \<Rightarrow> writer" where
  "wr_write w f =
     (if wr_opened w \<and> \<not> wr_released w then w\<lparr>wr_frames := wr_frames w @ [f]\<rparr> else w)"

record loop_state =
  ls_out :: writer
  ls_detector :: detector
  ls_processed_frames :: nat
  ls_total_detections :: nat
  ls_frame_times :: "rat list"
  ls_frame_num :: nat

text \<open>
  One iteration of the \<^verbatim>\<open>while True\<close> loop of \<^verbatim>\<open>process_video\<close> on a frame that
  \<^verbatim>\<open>cap.read()\<close> has returned: the exception that leaves the loop, if any, and the
  state at that point. The cooperative \<^verbatim>\<open>await asyncio.sleep\<close> changes no state and is
  not modelled.
\<close>

definition loop_body ::
  "env \<Rightarrow> int \<Rightarrow> int \<Rightarrow> frame \<Rightarrow> loop_state \<Rightarrow> error option \<times> loop_state" where
  "loop_body E frame_skip total_frames frame s =
     (case py_mod (int (ls_frame_num s)) frame_skip of
        Inl e \<Rightarrow> (Some e, s)
      | Inr m \<Rightarrow>
          if m \<noteq> 0 then
            (None, s\<lparr>ls_out := wr_write (ls_out s) frame, ls_frame_num := ls_frame_num s + 1\<rparr>)
          else
            (case detect_frame E (ls_detector s) frame of
               (results, D) \<Rightarrow>
                 (case draw_detections E frame (detections results) of
                    Inl e \<Rightarrow> (Some e, s\<lparr>ls_detector := D\<rparr>)
                  | Inr drawn_frame \<Rightarrow>
                 (case add_frame_overlay E drawn_frame
                         (ls_frame_num s) (length (detections results))
                         (frame_elapsed E (ls_frame_num s)) of
                    Inl e \<Rightarrow> (Some e, s\<lparr>ls_detector := D\<rparr>)
                  | Inr annotated_frame \<Rightarrow>
                      (let s1 = s\<lparr>ls_detector := D,
                                  ls_out := wr_write (ls_out s) annotated_frame,
                                  ls_processed_frames := ls_processed_frames s + 1,
                                  ls_total_detections :=
                                    ls_total_detections s + length (detections results),
                                  ls_frame_times :=
                                    ls_frame_times s @ [frame_elapsed E (ls_frame_num s)]\<rparr>
                       in case (if ls_processed_frames s1 mod 100 = 0
                                then py_truediv (of_nat (ls_frame_num s1)) (of_int total_frames)
                                else Inr 0) of
                            Inl e \<Rightarrow> (Some e, s1)
                          | Inr progress \<Rightarrow>
                              (None, s1\<lparr>ls_frame_num := ls_frame_num s1 + 1\<rparr>))))))"

text \<open>The loop over the frames that \<^verbatim>\<open>cap.read()\<close> yields in order; the empty list is
  \<^verbatim>\<open>ret == False\<close>, the \<^verbatim>\<open>break\<close>.\<close>

fun frame_loop ::
  "env \<Rightarrow> int \<Rightarrow> int \<Rightarrow> frame list \<Rightarrow> loop_state \<Rightarrow> error option \<times> loop_state" where
  "frame_loop E frame_skip total_frames [] s = (None, s)"
| "frame_loop E frame_skip total_frames (frame # rest) s =
     (case loop_body E frame_skip total_frames frame s of
        (Some e, s') \<Rightarrow> (Some e, s')
      | (None, s') \<Rightarrow> frame_loop E frame_skip total_frames rest s')"

record processing_result =
  input_path :: string
  output_path :: string
  total_frames :: int
  processed_frames :: nat
  processing_time :: rat
  avg_frame_time :: rat
  fps_processed :: rat
  total_detections :: nat
  avg_detections_per_frame :: rat
  vp_width :: int
  vp_height :: int
  vp_fps :: int
  duration_seconds :: rat

text \<open>What \<^verbatim>\<open>process_video\<close> leaves behind: the two OpenCV handles (the writer only if
  it was constructed) and the detector.\<close>

record world =
  w_cap :: capture
  w_out :: "writer option"
  w_detector :: detector

definition release_cap :: "capture \<Rightarrow> capture" where
  "release_cap c = c\<lparr>cap_released := True\<rparr>"

definition release_out :: "writer \<Rightarrow> writer" where
  "release_out w = w\<lparr>wr_released := True\<rparr>"

definition mean :: "rat list \<Rightarrow> rat" where
  "mean xs = sum_list xs / of_nat (length xs)"

text \<open>The call \<^verbatim>\<open>cv2.VideoWriter(output_path, fourcc, fps, (width, height))\<close> with the
  properties read from the capture through \<^verbatim>\<open>int(cap.get(...))\<close>.\<close>

definition open_writer :: "env \<Rightarrow> capture \<Rightarrow> string \<Rightarrow> writer" where
  "open_writer E cap outp =
     (let fps = py_int (cap_get cap CAP_PROP_FPS);
          width = py_int (cap_get cap CAP_PROP_FRAME_WIDTH);
          height = py_int (cap_get cap CAP_PROP_FRAME_HEIGHT)
      in \<lparr>wr_path = outp, wr_fourcc = ''mp4v'', wr_fps = fps, wr_size = (width, height),
          wr_opened = writer_opens E outp ''mp4v'' fps (width, height),
          wr_frames = [], wr_released = False\<rparr>)"

definition initial_state :: "writer \<Rightarrow> detector \<Rightarrow> loop_state" where
  "initial_state out D =
     \<lparr>ls_out = out, ls_detector = D, ls_processed_frames = 0, ls_total_detections = 0,
      ls_frame_times = [], ls_frame_num = 0\<rparr>"

text \<open>The dictionary built after the loop.\<close>

definition final_results ::
  "env \<Rightarrow> capture \<Rightarrow> string \<Rightarrow> string \<Rightarrow> loop_state \<Rightarrow> processing_result" where
  "final_results E cap inp outp s =
     (let fps = py_int (cap_get cap CAP_PROP_FPS);
          frame_count = py_int (cap_get cap CAP_PROP_FRAME_COUNT);
          ptime = total_elapsed E
      in \<lparr>input_path = inp, output_path = outp, total_frames = frame_count,
          processed_frames = ls_processed_frames s,
          processing_time = ptime,
          avg_frame_time = (if ls_frame_times s \<noteq> [] then mean (ls_frame_times s) else 0),
          fps_processed = (if ptime > 0 then of_nat (ls_processed_frames s) / ptime else 0),
          total_detections = ls_total_detections s,
          avg_detections_per_frame =
            (if ls_processed_frames s > 0
             then of_nat (ls_total_detections s) / of_nat (ls_processed_frames s)
             else 0),
          vp_width = py_int (cap_get cap CAP_PROP_FRAME_WIDTH),
          vp_height = py_int (cap_get cap CAP_PROP_FRAME_HEIGHT),
          vp_fps = fps,
          duration_seconds = (if fps > 0 then of_int frame_count / of_int fps else 0)\<rparr>)"

text \<open>
  \<^verbatim>\<open>process_video\<close>, with \<^verbatim>\<open>self.frame_skip\<close> as the parameter \<open>frame_skip\<close>. The
  \<^verbatim>\<open>except Exception\<close> handler logs and re-raises: it releases nothing. The two
  \<^verbatim>\<open>release\<close> calls follow the loop. The last \<^verbatim>\<open>logger.info\<close> passes the metrics as
  keyword arguments, which a standard-library logger that is enabled for INFO rejects with
  a \<^verbatim>\<open>TypeError\<close>.
\<close>

definition process_video ::
  "env \<Rightarrow> detector \<Rightarrow> int \<Rightarrow> string \<Rightarrow> string \<Rightarrow> (error + processing_result) \<times> world" where
  "process_video E D frame_skip inp outp =
     (let cap = VideoCapture E inp
      in if \<not> cap_opened cap
         then (Inl (ValueError (''Could not open video: '' @ inp)),
               \<lparr>w_cap = cap, w_out = None, w_detector = D\<rparr>)
         else
           case frame_loop E frame_skip (py_int (cap_get cap CAP_PROP_FRAME_COUNT))
                  (cap_frames cap) (initial_state (open_writer E cap outp) D) of
             (Some e, s) \<Rightarrow>
               (Inl e, \<lparr>w_cap = cap, w_out = Some (ls_out s), w_detector = ls_detector s\<rparr>)
           | (None, s) \<Rightarrow>
               let w = \<lparr>w_cap = release_cap cap, w_out = Some (release_out (ls_out s)),
                        w_detector = ls_detector s\<rparr>
               in if info_enabled E
                  then (Inl (TypeError ''Logger._log() got an unexpected keyword argument''), w)
                  else (Inr (final_results E cap inp outp s), w))"

subsection \<open>What the pipeline is expected to write\<close>

text \<open>The detections \<^verbatim>\<open>detect_frame\<close> reports for a frame: those of its body, none when
  the body raises.\<close>

definition detected :: "env \<Rightarrow> frame \<Rightarrow> detection list" where
  "detected E f = (case detect_body E f of Inl e \<Rightarrow> [] | Inr dets \<Rightarrow> dets)"

text \<open>The three drawing commands of a detection, and the condition under which none of
  the three calls raises: every coordinate passed to OpenCV fits a C \<^verbatim>\<open>int\<close>.\<close>

definition label_cmds :: "env \<Rightarrow> detection \<Rightarrow> draw_cmd list" where
  "label_cmds E det =
     (case bbox det of (bx1, by1, bx2, by2) \<Rightarrow>
        let x1 = py_int bx1; y1 = py_int by1;
            label_size = getTextSize E (label_of E det);
            ly = label_y y1 label_size
        in [Rectangle (x1, y1) (py_int bx2, py_int by2) (color_of (det_class det)) 2,
            Rectangle (x1, ly - snd label_size - 5) (x1 + fst label_size, ly + 5)
              (color_of (det_class det)) (- 1),
            PutText (label_of E det) (x1, ly) (1 / 2) (255, 255, 255) 2])"

definition drawable :: "env \<Rightarrow> detection \<Rightarrow> bool" where
  "drawable E det =
     (case bbox det of (bx1, by1, bx2, by2) \<Rightarrow>
        let x1 = py_int bx1; y1 = py_int by1;
            label_size = getTextSize E (label_of E det);
            ly = label_y y1 label_size
        in list_all fits_c_int
             [x1, y1, py_int bx2, py_int by2,
              ly - snd label_size - 5, x1 + fst label_size, ly + 5, ly])"

text \<open>A frame can be annotated without a raise when it is at least as high as the
  information band and each of its detections can be drawn.\<close>

definition annotatable :: "env \<Rightarrow> frame \<Rightarrow> bool" where
  "annotatable E f = (overlay_height \<le> rows f \<and> list_all (drawable E) (detected E f))"

text \<open>The frame written for frame number \<open>n\<close> when it undergoes detection: the boxes and
  labels of its detections, then the information band.\<close>

definition annotate :: "env \<Rightarrow> nat \<Rightarrow> frame \<Rightarrow> frame" where
  "annotate E n f =
     f\<lparr>drawn := drawn f @ concat (map (label_cmds E) (detected E f))
           @ [BlendBand overlay_height (7 / 10) (3 / 10)
                (overlay_texts E n (length (detected E f)) (frame_elapsed E n))]\<rparr>"

text \<open>Frame number \<open>n\<close> undergoes detection when \<^verbatim>\<open>n % frame_skip == 0\<close>.\<close>

definition selected :: "int \<Rightarrow> nat \<Rightarrow> bool" where
  "selected frame_skip n = (int n mod frame_skip = 0)"

fun expected_frames :: "env \<Rightarrow> int \<Rightarrow> nat \<Rightarrow> frame list \<Rightarrow> frame list" where
  "expected_frames E k n [] = []"
| "expected_frames E k n (f # fs) =
     (if selected k n then annotate E n f else f) # expected_frames E k (Suc n) fs"

text \<open>The frames that undergo detection, in order, among frames numbered from \<open>n\<close>.\<close>

fun selected_frames :: "int \<Rightarrow> nat \<Rightarrow> frame list \<Rightarrow> frame list" where
  "selected_frames k n [] = []"
| "selected_frames k n (f # fs) =
     (if selected k n then [f] else []) @ selected_frames k (Suc n) fs"

text \<open>The state of the detector after \<^verbatim>\<open>detect_frame\<close> has been called on the given
  frames, one after the other.\<close>

definition detector_after :: "env \<Rightarrow> detector \<Rightarrow> frame list \<Rightarrow> detector" where
  "detector_after E D fs = foldl (\<lambda>D f. snd (detect_frame E D f)) D fs"

subsection \<open>The submission handler of \<^verbatim>\<open>app/main.py\<close>\<close>

text \<open>Lowering the ASCII letters, leaving every other character as it is: what
  \<^verbatim>\<open>str.lower\<close> does on a name made of ASCII characters.\<close>

definition lower_char :: "char \<Rightarrow> char" where
  "lower_char c =
     (case map_of (zip ''ABCDEFGHIJKLMNOPQRSTUVWXYZ'' ''abcdefghijklmnopqrstuvwxyz'') c of
        Some l \<Rightarrow> l
      | None \<Rightarrow> c)"

definition ascii_lower :: "string \<Rightarrow> string" where
  "ascii_lower s = map lower_char s"

definition endswith :: "string \<Rightarrow> string \<Rightarrow> bool" where
  "endswith s suffix =
     (length suffix \<le> length s \<and> drop (length s - length suffix) s = suffix)"

text \<open>\<^verbatim>\<open>s.endswith((a, b, ...))\<close> with a tuple of suffixes.\<close>

definition endswith_any :: "string \<Rightarrow> string list \<Rightarrow> bool" where
  "endswith_any s suffixes = list_ex (endswith s) suffixes"

definition video_suffixes :: "string list" where
  "video_suffixes = [''.mp4'', ''.avi'', ''.mov'', ''.mkv'']"

text \<open>
  The state the handler reads and changes: whether the global \<^verbatim>\<open>detector\<close> is set, the
  files written under \<^verbatim>\<open>app/static/uploads\<close> (path and content), and the background
  tasks scheduled (input path, output path, job id).
\<close>

record server =
  detector_loaded :: bool
  uploads :: "(string \<times> string) list"
  tasks :: "(string \<times> string \<times> int) list"

record submit_response =
  message :: string
  job_id :: int
  status_url :: string
  input_file :: string

text \<open>
  \<^verbatim>\<open>detect_objects_video\<close>. \<open>writable path\<close> tells whether \<^verbatim>\<open>open(path, "wb")\<close> and the
  write succeed; \<open>timestamp\<close> is \<^verbatim>\<open>int(time.time())\<close>. The two checks before the
  \<^verbatim>\<open>try\<close> raise their \<^verbatim>\<open>HTTPException\<close> directly; a raise inside the \<^verbatim>\<open>try\<close>
  becomes status 500.
\<close>

definition detect_objects_video ::
  "env \<Rightarrow> (string \<Rightarrow> bool) \<Rightarrow> int \<Rightarrow> server \<Rightarrow> string \<Rightarrow> string
     \<Rightarrow> (error + submit_response) \<times> server" where
  "detect_objects_video E writable timestamp srv filename content =
     (if \<not> detector_loaded srv then (Inl (HTTPException 503 ''Model not loaded''), srv)
      else if \<not> endswith_any (py_lower E filename) video_suffixes
      then (Inl (HTTPException 400 ''Invalid video format''), srv)
      else
        let inp = ''app/static/uploads/'' @ str_int E timestamp @ ''_'' @ filename;
            outp = ''app/static/outputs/'' @ str_int E timestamp @ ''_processed_'' @ filename
        in if \<not> writable inp
           then (Inl (HTTPException 500 (str_error (OSError inp))), srv)
           else (Inr \<lparr>message = ''Video processing started'', job_id = timestamp,
                      status_url = ''/status/'' @ str_int E timestamp,
                      input_file = filename\<rparr>,
                 srv\<lparr>uploads := uploads srv @ [(inp, content)],
                     tasks := tasks srv @ [(inp, outp, timestamp)]\<rparr>))"

text \<open>The extension of a file name as the specification speaks of it: what follows the
  last dot; it is compared without regard to case, that is, after \<^verbatim>\<open>str.lower\<close>.\<close>

definition extension :: "string \<Rightarrow> string option" where
  "extension name =
     (if CHR ''.'' \<in> set name
      then Some (rev (takeWhile (\<lambda>c. c \<noteq> CHR ''.'') (rev name)))
      else None)"

definition allowed_extensions :: "string list" where
  "allowed_extensions = [''mp4'', ''avi'', ''mov'', ''mkv'']"

definition has_allowed_extension :: "env \<Rightarrow> string \<Rightarrow> bool" where
  "has_allowed_extension E name =
     (case extension (py_lower E name) of None \<Rightarrow> False | Some e \<Rightarrow> e \<in> set allowed_extensions)"

subsection \<open>Example inputs\<close>

definition example_frame :: "nat \<Rightarrow> nat \<Rightarrow> frame" where
  "example_frame h i = \<lparr>rows = h, cols = 640, pixels = i, drawn = []\<rparr>"

text \<open>A capture of three frames of the given height, with the given frame rate and frame
  count in its metadata.\<close>

definition example_capture :: "nat \<Rightarrow> rat \<Rightarrow> rat \<Rightarrow> capture" where
  "example_capture h fps n =
     \<lparr>cap_opened = True,
      cap_get = (\<lambda>p. case p of CAP_PROP_FPS \<Rightarrow> fps | CAP_PROP_FRAME_WIDTH \<Rightarrow> 640
                       | CAP_PROP_FRAME_HEIGHT \<Rightarrow> of_nat h | CAP_PROP_FRAME_COUNT \<Rightarrow> n),
      cap_frames = [example_frame h 0, example_frame h 1, example_frame h 2],
      cap_released = False\<rparr>"

definition closed_capture :: capture where
  "closed_capture = \<lparr>cap_opened = False, cap_get = (\<lambda>p. 0), cap_frames = [], cap_released = False\<rparr>"

text \<open>
  An environment with four files: a 640x480 video at 30 fps, the same at 29.97 fps, a
  640x48 video, and a path that does not open. The model finds a person, a ball and an
  object of another class in every frame, and raises on the frame with pixel data 2.
  Only \<^verbatim>\<open>out.mp4\<close> can be created.
\<close>

definition example_env :: env where
  "example_env =
     \<lparr>yolo = (\<lambda>f conf iou.
         if pixels f = 2 then Inl (ModelError ''inference failed'')
         else Inr [Some [((100, 100, 200, 200), 9 / 10, 0),
                         ((10, 10, 50, 50), 8 / 10, 32),
                         ((0, 0, 5, 5), 6 / 10, 7)]]),
      yolo_names = map_of [(0, ''person''), (32, ''sports ball'')],
      VideoCapture = (\<lambda>path.
         if path = ''in.mp4'' then example_capture 480 30 3
         else if path = ''ntsc.mp4'' then example_capture 480 (2997 / 100) 3
         else if path = ''small.mp4'' then example_capture 48 30 3
         else closed_capture),
      writer_opens = (\<lambda>path fourcc fps size. path = ''out.mp4''),
      getTextSize = (\<lambda>text. (9 * int (length text), 11)),
      format_float = (\<lambda>d x. ''0.00''),
      str_int = (\<lambda>n. ''0''),
      py_lower = ascii_lower,
      detect_elapsed = (\<lambda>f. 1 / 50),
      frame_elapsed = (\<lambda>n. 1 / 40),
      total_elapsed = 1,
      info_enabled = False\<rparr>"

definition new_detector :: detector where
  "new_detector = \<lparr>total_inferences = 0, total_inference_time = 0\<rparr>"

definition example_ball :: detection where
  "example_ball =
     \<lparr>det_id = 1, det_class = ''sports ball'', class_id = 32, confidence = 8 / 10,
      bbox = (10, 10, 50, 50), center = (30, 30), area = 1600, sports_role = Some ''ball''\<rparr>"

definition example_person :: detection where
  "example_person =
     \<lparr>det_id = 0, det_class = ''person'', class_id = 0, confidence = 9 / 10,
      bbox = (100, 100, 200, 200), center = (150, 150), area = 10000,
      sports_role = Some ''player''\<rparr>"

text \<open>The example environment as the service configures it (the module logger enabled for
  INFO), with no class names, and with a capture that opens and has no frame.\<close>

definition service_env :: env where
  "service_env = example_env\<lparr>info_enabled := True\<rparr>"

definition nameless_env :: env where
  "nameless_env = example_env\<lparr>yolo_names := (\<lambda>cls_id. None)\<rparr>"

definition empty_capture :: capture where
  "empty_capture =
     \<lparr>cap_opened = True, cap_get = (\<lambda>p. 0), cap_frames = [], cap_released = False\<rparr>"

definition empty_env :: env where
  "empty_env = example_env\<lparr>VideoCapture := (\<lambda>path. empty_capture)\<rparr>"

subsection \<open>Notions used in the statements\<close>

text \<open>A row of the model output is kept when its class is one of the sports classes, and
  resolvable when it is not kept or its class has a name. \<open>first_boxes\<close> are the rows that
  \<^verbatim>\<open>detect_frame\<close> looks at: the boxes of the first result, if any.\<close>

definition kept :: "raw_box \<Rightarrow> bool" where
  "kept row = (case row of (box, conf, cls_id) \<Rightarrow> cls_id \<in> set (map fst sports_classes) \<or> cls_id = 0)"

definition resolvable :: "env \<Rightarrow> raw_box \<Rightarrow> bool" where
  "resolvable E row =
     (case row of (box, conf, cls_id) \<Rightarrow> kept row \<longrightarrow> yolo_names E cls_id \<noteq> None)"

definition first_boxes :: "(raw_box list option) list \<Rightarrow> raw_box list" where
  "first_boxes results =
     (case results of [] \<Rightarrow> [] | None # _ \<Rightarrow> [] | Some boxes # _ \<Rightarrow> boxes)"





section \<open>Properties\<close>

subsection \<open>The detector\<close>

definition role_ok :: "detection \<Rightarrow> bool" where
  "role_ok d =
     ((class_id d = 0 \<longrightarrow> sports_role d = Some (classify_person_role d)) \<and>
      (class_id d = 32 \<longrightarrow> sports_role d = Some ''ball''))"

text \<open>Evaluation of the example inputs.\<close>

lemma example_captures [simp]:
  "VideoCapture example_env ''in.mp4'' = example_capture 480 30 3"
  "VideoCapture example_env ''ntsc.mp4'' = example_capture 480 (2997 / 100) 3"
  "VideoCapture example_env ''small.mp4'' = example_capture 48 30 3"
  "VideoCapture example_env ''nope.mp4'' = closed_capture"
  by (simp_all add: example_env_def)

lemma example_capture_simps [simp]:
  "cap_opened (example_capture h fps n) = True"
  "cap_released (example_capture h fps n) = False"
  "cap_frames (example_capture h fps n) = [example_frame h 0, example_frame h 1, example_frame h 2]"
  "cap_get (example_capture h fps n) CAP_PROP_FPS = fps"
  "cap_get (example_capture h fps n) CAP_PROP_FRAME_WIDTH = 640"
  "cap_get (example_capture h fps n) CAP_PROP_FRAME_HEIGHT = of_nat h"
  "cap_get (example_capture h fps n) CAP_PROP_FRAME_COUNT = n"
  by (simp_all add: example_capture_def)

lemma example_frame_simps [simp]:
  "rows (example_frame h i) = h"
  "drawn (example_frame h i) = []"
  "pixels (example_frame h i) = i"
  by (simp_all add: example_frame_def)

lemma example_env_simps [simp]:
  "writer_opens example_env path fourcc fps sz = (path = ''out.mp4'')"
  "info_enabled example_env = False"
  by (simp_all add: example_env_def)

lemma py_int_numeral [simp]: "py_int (numeral n) = numeral n"
  by (simp add: py_int_def)

lemma py_int_ntsc: "py_int (2997 / 100) = 29"
proof -
  have "\<lfloor>(2997 / 100 :: rat)\<rfloor> = 29"
    by (rule floor_unique) simp_all
  then show ?thesis by (simp add: py_int_def)
qed

lemma wr_write_simps [simp]:
  "wr_fps (wr_write w f) = wr_fps w"
  "wr_size (wr_write w f) = wr_size w"
  "wr_opened (wr_write w f) = wr_opened w"
  "wr_released (wr_write w f) = wr_released w"
  by (simp_all add: wr_write_def)

lemma make_detection_role:
  assumes "make_detection E i row = Inr (Some d)"
  shows "role_ok d"
proof -
  obtain x1 y1 x2 y2 conf cls_id where row: "row = ((x1, y1, x2, y2), conf, cls_id)"
    by (cases row) auto
  show ?thesis
    using assms unfolding row make_detection_def role_ok_def Let_def
    by (auto simp: classify_person_role_def split: if_splits option.splits)
qed

lemma extract_detections_role:
  "extract_detections E i bxs acc = Inr dets \<Longrightarrow> \<forall>d\<in>set acc. role_ok d \<Longrightarrow>
   \<forall>d\<in>set dets. role_ok d"
proof (induction bxs arbitrary: i acc)
  case Nil
  then show ?case by simp
next
  case (Cons row rest)
  show ?case
  proof (cases "make_detection E i row")
    case (Inl e)
    with Cons.prems show ?thesis by simp
  next
    case (Inr od)
    show ?thesis
    proof (cases od)
      case None
      with Inr Cons.prems Cons.IH[of "Suc i" acc] show ?thesis by simp
    next
      case (Some d)
      with Inr have "role_ok d" using make_detection_role by blast
      with Some Inr Cons.prems Cons.IH[of "Suc i" "acc @ [d]"] show ?thesis by simp
    qed
  qed
qed

lemma detect_body_role:
  assumes "detect_body E f = Inr dets" and "d \<in> set dets"
  shows "role_ok d"
proof -
  have "dets = [] \<or> (\<exists>boxes. extract_detections E 0 boxes [] = Inr dets)"
    using assms(1) unfolding detect_body_def
    by (auto split: sum.splits list.splits option.splits)
  then show ?thesis
    using assms(2) extract_detections_role[of E 0 _ "[]" dets] by auto
qed

lemma detect_frame_detections:
  "detections (fst (detect_frame E D f)) = detected E f"
  by (simp add: detect_frame_def detected_def split: sum.splits)

lemma detect_frame_eq:
  "detect_frame E D f = (r, D') \<Longrightarrow> detections r = detected E f"
  using detect_frame_detections[of E D f] by simp

lemma example_detect_body_0:
  "detect_body example_env (example_frame h 0) =
     Inr [\<lparr>det_id = 0, det_class = ''person'', class_id = 0, confidence = 9 / 10,
           bbox = (100, 100, 200, 200), center = (150, 150), area = 10000,
           sports_role = Some ''player''\<rparr>,
          \<lparr>det_id = 1, det_class = ''sports ball'', class_id = 32, confidence = 8 / 10,
           bbox = (10, 10, 50, 50), center = (30, 30), area = 1600,
           sports_role = Some ''ball''\<rparr>]"
  by (simp add: detect_body_def example_env_def example_frame_def make_detection_def
      sports_classes_def classify_person_role_def Let_def)

lemma example_detect_body_2:
  "detect_body example_env (example_frame h 2) = Inl (ModelError ''inference failed'')"
  by (simp add: detect_body_def example_env_def example_frame_def)

text \<open>
  C7. Every detection that \<^verbatim>\<open>detect_frame\<close> reports carries a role computed from its
  area alone when it is a person (class 0): \<open>player\<close> above 5000, \<open>referee_or_coach\<close>
  above 2000 and up to 5000, \<open>spectator_or_other\<close> otherwise; a detection of the ball
  class (32) is tagged \<open>ball\<close>.
\<close>

theorem role_from_area:
  assumes "d \<in> set (detections (fst (detect_frame E D f)))"
  shows "(class_id d = 0 \<longrightarrow>
            sports_role d =
              Some (if area d > 5000 then ''player''
                    else if area d > 2000 then ''referee_or_coach''
                    else ''spectator_or_other'')) \<and>
         (class_id d = 32 \<longrightarrow> sports_role d = Some ''ball'')"
proof -
  from assms obtain dets where "detect_body E f = Inr dets" and "d \<in> set dets"
    by (cases "detect_body E f") (simp_all add: detect_frame_detections detected_def)
  then have "role_ok d" by (rule detect_body_role)
  then show ?thesis
    by (simp add: role_ok_def classify_person_role_def)
qed

theorem role_from_area_witness:
  "\<lparr>det_id = 0, det_class = ''person'', class_id = 0, confidence = 9 / 10,
    bbox = (100, 100, 200, 200), center = (150, 150), area = 10000,
    sports_role = Some ''player''\<rparr>
     \<in> set (detections (fst (detect_frame example_env new_detector (example_frame 480 0)))) \<and>
   \<lparr>det_id = 1, det_class = ''sports ball'', class_id = 32, confidence = 8 / 10,
    bbox = (10, 10, 50, 50), center = (30, 30), area = 1600,
    sports_role = Some ''ball''\<rparr>
     \<in> set (detections (fst (detect_frame example_env new_detector (example_frame 480 0)))) \<and>
   (10000::rat) > 5000 \<and>
   sports_role \<lparr>det_id = 0, det_class = ''person'', class_id = 0, confidence = 9 / 10,
    bbox = (100, 100, 200, 200), center = (150, 150), area = 10000,
    sports_role = Some ''player''\<rparr> = Some ''player'' \<and>
   sports_role \<lparr>det_id = 1, det_class = ''sports ball'', class_id = 32, confidence = 8 / 10,
    bbox = (10, 10, 50, 50), center = (30, 30), area = 1600,
    sports_role = Some ''ball''\<rparr> = Some ''ball''"
proof -
  let ?p = "\<lparr>det_id = 0, det_class = ''person'', class_id = 0, confidence = 9 / 10,
    bbox = (100, 100, 200, 200), center = (150, 150), area = (10000::rat),
    sports_role = Some ''player''\<rparr>"
  let ?b = "\<lparr>det_id = 1, det_class = ''sports ball'', class_id = 32, confidence = 8 / 10,
    bbox = (10, 10, 50, 50), center = (30, 30), area = (1600::rat),
    sports_role = Some ''ball''\<rparr>"
  let ?ds = "detections (fst (detect_frame example_env new_detector (example_frame 480 0)))"
  have hp: "?p \<in> set ?ds"
    by (simp add: detect_frame_detections detected_def example_detect_body_0)
  have hb: "?b \<in> set ?ds"
    by (simp add: detect_frame_detections detected_def example_detect_body_0)
  from role_from_area[OF hp] role_from_area[OF hb] hp hb show ?thesis by simp
qed

subsection \<open>The frame loop and \<^verbatim>\<open>process_video\<close>\<close>


lemma drawable_iff:
  "draw_one E det =
     (if drawable E det then Inr (label_cmds E det) else Inl (OverflowError ''integer overflow''))"
  by (cases "bbox det")
     (auto simp: draw_one_def drawable_def label_cmds_def cv2_rectangle_def cv2_putText_def Let_def)

lemma draw_detections_eq:
  "draw_detections E f dets =
     (if list_all (drawable E) dets
      then Inr (f\<lparr>drawn := drawn f @ concat (map (label_cmds E) dets)\<rparr>)
      else Inl (OverflowError ''integer overflow''))"
  by (induction dets arbitrary: f) (simp_all add: drawable_iff)

lemma add_frame_overlay_eq:
  "add_frame_overlay E g n c t =
     (if overlay_height \<le> rows g
      then Inr (g\<lparr>drawn := drawn g @ [BlendBand overlay_height (7 / 10) (3 / 10)
                                        (overlay_texts E n c t)]\<rparr>)
      else Inl (CvError ''Sizes of input arguments do not match''))"
  by (simp add: add_frame_overlay_def Let_def min_def)

text \<open>One iteration of the loop, case by case.\<close>

lemma loop_body_eq:
  "loop_body E k tf f s =
     (if k = 0 then (Some ZeroDivisionError, s)
      else if \<not> selected k (ls_frame_num s)
      then (None, s\<lparr>ls_out := wr_write (ls_out s) f, ls_frame_num := ls_frame_num s + 1\<rparr>)
      else if \<not> list_all (drawable E) (detected E f)
      then (Some (OverflowError ''integer overflow''),
            s\<lparr>ls_detector := snd (detect_frame E (ls_detector s) f)\<rparr>)
      else if \<not> overlay_height \<le> rows f
      then (Some (CvError ''Sizes of input arguments do not match''),
            s\<lparr>ls_detector := snd (detect_frame E (ls_detector s) f)\<rparr>)
      else if Suc (ls_processed_frames s) mod 100 = 0 \<and> tf = 0
      then (Some ZeroDivisionError,
            s\<lparr>ls_detector := snd (detect_frame E (ls_detector s) f),
              ls_out := wr_write (ls_out s) (annotate E (ls_frame_num s) f),
              ls_processed_frames := ls_processed_frames s + 1,
              ls_total_detections := ls_total_detections s + length (detected E f),
              ls_frame_times := ls_frame_times s @ [frame_elapsed E (ls_frame_num s)]\<rparr>)
      else (None,
            s\<lparr>ls_detector := snd (detect_frame E (ls_detector s) f),
              ls_out := wr_write (ls_out s) (annotate E (ls_frame_num s) f),
              ls_processed_frames := ls_processed_frames s + 1,
              ls_total_detections := ls_total_detections s + length (detected E f),
              ls_frame_times := ls_frame_times s @ [frame_elapsed E (ls_frame_num s)],
              ls_frame_num := ls_frame_num s + 1\<rparr>))"
proof -
  obtain r D' where df: "detect_frame E (ls_detector s) f = (r, D')"
    by (cases "detect_frame E (ls_detector s) f")
  note dr = detect_frame_eq[OF df]
  show ?thesis
    unfolding loop_body_def py_mod_def py_truediv_def selected_def
    by (simp add: df dr draw_detections_eq add_frame_overlay_eq annotate_def Let_def)
qed

lemma loop_body_None:
  assumes "loop_body E k tf f s = (None, s')"
  shows "ls_frame_num s' = Suc (ls_frame_num s)"
    and "ls_out s' = wr_write (ls_out s) (if selected k (ls_frame_num s) then annotate E (ls_frame_num s) f else f)"
    and "ls_processed_frames s' = ls_processed_frames s + (if selected k (ls_frame_num s) then 1 else 0)"
    and "ls_total_detections s' = ls_total_detections s + (if selected k (ls_frame_num s) then length (detected E f) else 0)"
    and "k \<noteq> 0"
    and "ls_detector s' = (if selected k (ls_frame_num s)
                           then snd (detect_frame E (ls_detector s) f) else ls_detector s)"
  using assms unfolding loop_body_eq by (auto split: if_splits)

lemma loop_body_completes:
  assumes "k \<noteq> 0"
    and "selected k (ls_frame_num s) \<longrightarrow> annotatable E f"
    and "tf \<noteq> 0 \<or> Suc (ls_processed_frames s) mod 100 \<noteq> 0"
  shows "fst (loop_body E k tf f s) = None"
  using assms unfolding loop_body_eq annotatable_def by auto

lemma loop_body_raised:
  assumes "loop_body E k tf f s = (Some e, s')"
  shows "ls_out s' = ls_out s \<and> ls_detector s' = ls_detector s \<or>
         selected k (ls_frame_num s) \<and>
         ls_detector s' = snd (detect_frame E (ls_detector s) f) \<and>
         (ls_out s' = ls_out s \<or>
          ls_out s' = wr_write (ls_out s) (annotate E (ls_frame_num s) f))"
  using assms unfolding loop_body_eq by (auto split: if_splits)

lemma filter_upt_shift:
  "filter P [n..<n + Suc m] = (if P n then [n] else []) @ filter P [Suc n..<Suc n + m]"
  by (simp add: upt_conv_Cons del: upt_Suc)

lemma frame_loop_completes:
  "k \<noteq> 0 \<Longrightarrow>
   \<forall>j<length fs. selected k (ls_frame_num s + j) \<longrightarrow> annotatable E (fs ! j) \<Longrightarrow>
   tf \<noteq> 0 \<or>
     ls_processed_frames s
       + length (filter (selected k) [ls_frame_num s..<ls_frame_num s + length fs]) < 100 \<Longrightarrow>
   fst (frame_loop E k tf fs s) = None"
proof (induction fs arbitrary: s)
  case Nil
  then show ?case by simp
next
  case (Cons f fs)
  let ?n = "ls_frame_num s" and ?p = "ls_processed_frames s"
  have cnt: "filter (selected k) [?n..<?n + length (f # fs)]
      = (if selected k ?n then [?n] else []) @ filter (selected k) [Suc ?n..<Suc ?n + length fs]"
    using filter_upt_shift[of "selected k" ?n "length fs"] by simp
  have f0: "selected k ?n \<longrightarrow> annotatable E f"
    using Cons.prems(2) by force
  have pr: "tf \<noteq> 0 \<or> (selected k ?n \<longrightarrow> Suc ?p mod 100 \<noteq> 0)"
    using Cons.prems(3) unfolding cnt by auto
  have "fst (loop_body E k tf f s) = None"
    using Cons.prems(1) f0 pr unfolding loop_body_eq annotatable_def by auto
  then obtain s1 where b: "loop_body E k tf f s = (None, s1)"
    by (cases "loop_body E k tf f s") auto
  note b1 = loop_body_None[OF b]
  have a: "\<forall>j<length fs. selected k (ls_frame_num s1 + j) \<longrightarrow> annotatable E (fs ! j)"
  proof (intro allI impI)
    fix j assume "j < length fs" "selected k (ls_frame_num s1 + j)"
    then show "annotatable E (fs ! j)"
      using Cons.prems(2)[rule_format, of "Suc j"] b1(1) by simp
  qed
  have c: "tf \<noteq> 0 \<or>
     ls_processed_frames s1
       + length (filter (selected k) [ls_frame_num s1..<ls_frame_num s1 + length fs]) < 100"
    using Cons.prems(3) unfolding cnt b1(1) b1(3) by auto
  from Cons.IH[OF Cons.prems(1) a c] b show ?case by simp
qed

lemma frame_loop_None:
  "frame_loop E k tf fs s = (None, s') \<Longrightarrow>
   ls_out s' = foldl wr_write (ls_out s) (expected_frames E k (ls_frame_num s) fs) \<and>
   ls_frame_num s' = ls_frame_num s + length fs \<and>
   ls_processed_frames s' =
     ls_processed_frames s
       + length (filter (selected k) [ls_frame_num s ..< ls_frame_num s + length fs]) \<and>
   ls_detector s' = detector_after E (ls_detector s) (selected_frames k (ls_frame_num s) fs) \<and>
   ls_total_detections s' =
     ls_total_detections s
       + sum_list (map (\<lambda>f. length (detected E f)) (selected_frames k (ls_frame_num s) fs))"
proof (induction fs arbitrary: s)
  case Nil
  then show ?case by (simp add: detector_after_def)
next
  case (Cons f fs)
  obtain r s1 where b: "loop_body E k tf f s = (r, s1)"
    by (cases "loop_body E k tf f s")
  with Cons.prems have r: "r = None" and l: "frame_loop E k tf fs s1 = (None, s')"
    by (auto split: option.splits)
  note b1 = loop_body_None[OF b[unfolded r]]
  have up: "[ls_frame_num s ..< ls_frame_num s + length (f # fs)]
            = ls_frame_num s # [Suc (ls_frame_num s) ..< Suc (ls_frame_num s) + length fs]"
    by (simp add: upt_conv_Cons del: upt_Suc)
  show ?case
    using Cons.IH[OF l] b1(1,2,3,4,6) unfolding up
    by (simp add: detector_after_def)
qed

lemma frame_loop_trace:
  "frame_loop E k tf fs s = (r, s') \<Longrightarrow>
   \<exists>mw m. mw \<le> m \<and> m \<le> length fs \<and>
     ls_out s' = foldl wr_write (ls_out s) (take mw (expected_frames E k (ls_frame_num s) fs)) \<and>
     ls_detector s' =
       detector_after E (ls_detector s) (selected_frames k (ls_frame_num s) (take m fs)) \<and>
     (r = None \<longrightarrow> mw = length fs)"
proof (induction fs arbitrary: s)
  case Nil
  then show ?case by (simp add: detector_after_def)
next
  case (Cons f fs)
  obtain r1 s1 where b: "loop_body E k tf f s = (r1, s1)"
    by (cases "loop_body E k tf f s")
  show ?case
  proof (cases r1)
    case None
    with b Cons.prems have l: "frame_loop E k tf fs s1 = (r, s')" by simp
    note b1 = loop_body_None[OF b[unfolded None]]
    from Cons.IH[OF l] obtain mw m where m: "mw \<le> m" "m \<le> length fs"
      "ls_out s' = foldl wr_write (ls_out s1) (take mw (expected_frames E k (ls_frame_num s1) fs))"
      "ls_detector s' =
         detector_after E (ls_detector s1) (selected_frames k (ls_frame_num s1) (take m fs))"
      "r = None \<longrightarrow> mw = length fs"
      by blast
    show ?thesis
      using m b1(1,2,6)
      by (intro exI[of _ "Suc mw"] exI[of _ "Suc m"]) (simp add: detector_after_def)
  next
    case (Some e)
    with b Cons.prems have s': "s' = s1" and r: "r = Some e" by simp_all
    from loop_body_raised[OF b[unfolded Some]]
    consider (quiet) "ls_out s1 = ls_out s" "ls_detector s1 = ls_detector s"
      | (called) "selected k (ls_frame_num s)"
          "ls_detector s1 = snd (detect_frame E (ls_detector s) f)" "ls_out s1 = ls_out s"
      | (written) "selected k (ls_frame_num s)"
          "ls_detector s1 = snd (detect_frame E (ls_detector s) f)"
          "ls_out s1 = wr_write (ls_out s) (annotate E (ls_frame_num s) f)"
      by blast
    then show ?thesis
    proof cases
      case quiet
      then show ?thesis unfolding s' r
        by (intro exI[of _ 0] exI[of _ 0]) (simp add: detector_after_def)
    next
      case called
      then show ?thesis unfolding s' r
        by (intro exI[of _ 0] exI[of _ 1]) (simp add: detector_after_def)
    next
      case written
      then show ?thesis unfolding s' r
        by (intro exI[of _ 1] exI[of _ 1]) (simp add: detector_after_def)
    qed
  qed
qed

lemma foldl_wr_write:
  "foldl wr_write w xs =
     (if wr_opened w \<and> \<not> wr_released w then w\<lparr>wr_frames := wr_frames w @ xs\<rparr> else w)"
  by (induction xs arbitrary: w) (simp_all add: wr_write_def)

lemma length_expected_frames [simp]: "length (expected_frames E k n fs) = length fs"
  by (induction fs arbitrary: n) simp_all

lemma nth_expected_frames:
  "i < length fs \<Longrightarrow>
   expected_frames E k n fs ! i = (if selected k (n + i) then annotate E (n + i) (fs ! i) else fs ! i)"
proof (induction fs arbitrary: n i)
  case Nil
  then show ?case by simp
next
  case (Cons f fs)
  then show ?case by (cases i) simp_all
qed

lemma selected_frames_eq:
  "selected_frames k n fs = map (\<lambda>i. fs ! i) (filter (\<lambda>i. selected k (n + i)) [0..<length fs])"
proof (induction fs arbitrary: n)
  case Nil
  then show ?case by simp
next
  case (Cons f fs)
  have "filter (\<lambda>i. selected k (n + i)) [0..<Suc (length fs)]
      = (if selected k n then [0] else [])
          @ map Suc (filter (\<lambda>i. selected k (Suc n + i)) [0..<length fs])"
  proof -
    have "[0..<Suc (length fs)] = 0 # map Suc [0..<length fs]"
      by (simp add: upt_conv_Cons map_Suc_upt del: upt_Suc)
    then show ?thesis by (simp add: filter_map comp_def del: upt_Suc)
  qed
  then show ?case
    using Cons.IH[of "Suc n"] by (simp add: comp_def del: upt_Suc)
qed

lemma total_inferences_after:
  "total_inferences (detector_after E D fs) =
     total_inferences D + length (filter (\<lambda>f. \<not> isl (detect_body E f)) fs)"
proof (induction fs arbitrary: D)
  case Nil
  then show ?case by (simp add: detector_after_def)
next
  case (Cons f fs)
  have "total_inferences (snd (detect_frame E D f)) =
          total_inferences D + (if isl (detect_body E f) then 0 else 1)"
    by (cases "detect_body E f") (simp_all add: detect_frame_def)
  with Cons[of "snd (detect_frame E D f)"] show ?case
    by (simp add: detector_after_def)
qed

lemma process_video_closed:
  "\<not> cap_opened (VideoCapture E inp) \<Longrightarrow>
   process_video E D k inp outp =
     (Inl (ValueError (''Could not open video: '' @ inp)),
      \<lparr>w_cap = VideoCapture E inp, w_out = None, w_detector = D\<rparr>)"
  by (simp add: process_video_def Let_def)

lemma process_video_raised:
  assumes "cap_opened (VideoCapture E inp)"
    and "frame_loop E k (py_int (cap_get (VideoCapture E inp) CAP_PROP_FRAME_COUNT))
           (cap_frames (VideoCapture E inp))
           (initial_state (open_writer E (VideoCapture E inp) outp) D) = (Some e, s)"
  shows "process_video E D k inp outp =
           (Inl e, \<lparr>w_cap = VideoCapture E inp, w_out = Some (ls_out s),
                    w_detector = ls_detector s\<rparr>)"
  using assms by (simp add: process_video_def Let_def)

lemma process_video_finished:
  assumes "cap_opened (VideoCapture E inp)"
    and "frame_loop E k (py_int (cap_get (VideoCapture E inp) CAP_PROP_FRAME_COUNT))
           (cap_frames (VideoCapture E inp))
           (initial_state (open_writer E (VideoCapture E inp) outp) D) = (None, s)"
  shows "process_video E D k inp outp =
           (if info_enabled E
            then Inl (TypeError ''Logger._log() got an unexpected keyword argument'')
            else Inr (final_results E (VideoCapture E inp) inp outp s),
            \<lparr>w_cap = release_cap (VideoCapture E inp),
             w_out = Some (release_out (ls_out s)), w_detector = ls_detector s\<rparr>)"
  using assms by (simp add: process_video_def Let_def)

lemma open_writer_simps [simp]:
  "wr_frames (open_writer E cap outp) = []"
  "wr_released (open_writer E cap outp) = False"
  "wr_fps (open_writer E cap outp) = py_int (cap_get cap CAP_PROP_FPS)"
  "wr_size (open_writer E cap outp) =
     (py_int (cap_get cap CAP_PROP_FRAME_WIDTH), py_int (cap_get cap CAP_PROP_FRAME_HEIGHT))"
  "wr_opened (open_writer E cap outp) =
     writer_opens E outp ''mp4v'' (py_int (cap_get cap CAP_PROP_FPS))
       (py_int (cap_get cap CAP_PROP_FRAME_WIDTH), py_int (cap_get cap CAP_PROP_FRAME_HEIGHT))"
  by (simp_all add: open_writer_def Let_def)

lemma initial_state_simps [simp]:
  "ls_out (initial_state out D) = out"
  "ls_detector (initial_state out D) = D"
  "ls_processed_frames (initial_state out D) = 0"
  "ls_total_detections (initial_state out D) = 0"
  "ls_frame_num (initial_state out D) = 0"
  by (simp_all add: initial_state_def)

lemma release_out_simps [simp]:
  "wr_frames (release_out w) = wr_frames w"
  "wr_released (release_out w) = True"
  "wr_fps (release_out w) = wr_fps w"
  "wr_size (release_out w) = wr_size w"
  "wr_opened (release_out w) = wr_opened w"
  by (simp_all add: release_out_def)

lemma written_frames:
  "wr_frames (foldl wr_write (open_writer E cap outp) xs) =
     (if wr_opened (open_writer E cap outp) then xs else [])"
  "wr_fps (foldl wr_write (open_writer E cap outp) xs) = py_int (cap_get cap CAP_PROP_FPS)"
  "wr_size (foldl wr_write (open_writer E cap outp) xs) =
     (py_int (cap_get cap CAP_PROP_FRAME_WIDTH), py_int (cap_get cap CAP_PROP_FRAME_HEIGHT))"
  "wr_opened (foldl wr_write (open_writer E cap outp) xs) = wr_opened (open_writer E cap outp)"
  by (simp_all add: foldl_wr_write)

lemma py_int_of_int [simp]: "py_int (of_int n) = n"
  by (simp add: py_int_def)

lemma annotate_neq: "annotate E n f \<noteq> f"
proof
  assume "annotate E n f = f"
  then have "length (drawn (annotate E n f)) = length (drawn f)" by simp
  then show False by (simp add: annotate_def)
qed

lemma yolo_raises_detected:
  "yolo E f confidence_threshold iou_threshold = Inl e \<Longrightarrow> detected E f = []"
  by (simp add: detected_def detect_body_def)

lemma selected_frames_take:
  assumes "m \<le> length fs"
  shows "selected_frames k 0 (take m fs) = map (\<lambda>i. fs ! i) (filter (selected k) [0..<m])"
proof -
  have "selected_frames k 0 (take m fs)
      = map (\<lambda>i. take m fs ! i) (filter (selected k) [0..<m])"
    using assms by (simp add: selected_frames_eq min_def)
  also have "\<dots> = map (\<lambda>i. fs ! i) (filter (selected k) [0..<m])"
    by (rule map_cong) auto
  finally show ?thesis .
qed

lemma inferences_of_selected:
  "length (filter (\<lambda>f. \<not> isl (detect_body E f)) (map (\<lambda>i. fs ! i) (filter (selected k) [0..<m])))
   = length (filter (\<lambda>i. selected k i \<and> \<not> isl (detect_body E (fs ! i))) [0..<m])"
proof -
  have "filter (\<lambda>f. \<not> isl (detect_body E f)) (map (\<lambda>i. fs ! i) (filter (selected k) [0..<m]))
      = map (\<lambda>i. fs ! i) (filter (\<lambda>i. selected k i \<and> \<not> isl (detect_body E (fs ! i))) [0..<m])"
    by (simp add: filter_map comp_def conj_commute)
  then show ?thesis by simp
qed

text \<open>A run on which neither the modulo, nor a drawing call, nor the blending, nor the
  progress log raises.\<close>

lemma process_video_completes:
  assumes opened: "cap_opened (VideoCapture E inp)"
    and skip: "frame_skip \<noteq> 0"
    and ann: "\<forall>i<length (cap_frames (VideoCapture E inp)).
                selected frame_skip i \<longrightarrow> annotatable E (cap_frames (VideoCapture E inp) ! i)"
    and count: "py_int (cap_get (VideoCapture E inp) CAP_PROP_FRAME_COUNT) \<noteq> 0 \<or>
                length (filter (selected frame_skip)
                          [0..<length (cap_frames (VideoCapture E inp))]) < 100"
  shows "\<exists>s. process_video E D frame_skip inp outp =
           (if info_enabled E
            then Inl (TypeError ''Logger._log() got an unexpected keyword argument'')
            else Inr (final_results E (VideoCapture E inp) inp outp s),
            \<lparr>w_cap = release_cap (VideoCapture E inp),
             w_out = Some (release_out (foldl wr_write (open_writer E (VideoCapture E inp) outp)
                      (expected_frames E frame_skip 0 (cap_frames (VideoCapture E inp))))),
             w_detector = detector_after E D
                            (selected_frames frame_skip 0 (cap_frames (VideoCapture E inp)))\<rparr>) \<and>
           ls_processed_frames s =
             length (filter (selected frame_skip) [0..<length (cap_frames (VideoCapture E inp))]) \<and>
           ls_total_detections s =
             sum_list (map (\<lambda>f. length (detected E f))
                         (selected_frames frame_skip 0 (cap_frames (VideoCapture E inp))))"
proof -
  let ?cap = "VideoCapture E inp"
  let ?s0 = "initial_state (open_writer E ?cap outp) D"
  let ?tf = "py_int (cap_get ?cap CAP_PROP_FRAME_COUNT)"
  have "fst (frame_loop E frame_skip ?tf (cap_frames ?cap) ?s0) = None"
    using skip ann count by (intro frame_loop_completes) simp_all
  then obtain s where loop: "frame_loop E frame_skip ?tf (cap_frames ?cap) ?s0 = (None, s)"
    by (cases "frame_loop E frame_skip ?tf (cap_frames ?cap) ?s0") auto
  from frame_loop_None[OF loop]
  have out: "ls_out s = foldl wr_write (open_writer E ?cap outp)
                          (expected_frames E frame_skip 0 (cap_frames ?cap))"
    and n: "ls_processed_frames s = length (filter (selected frame_skip) [0..<length (cap_frames ?cap)])"
    and d: "ls_detector s = detector_after E D (selected_frames frame_skip 0 (cap_frames ?cap))"
    and t: "ls_total_detections s =
             sum_list (map (\<lambda>f. length (detected E f)) (selected_frames frame_skip 0 (cap_frames ?cap)))"
    by simp_all
  show ?thesis
    using process_video_finished[OF opened loop] n t unfolding out d by blast
qed

text \<open>Every exception that leaves the loop propagates with both handles as they were
  when the loop was entered: open and unreleased.\<close>

lemma raise_leaves_handles:
  assumes "cap_opened (VideoCapture E inp)"
    and "frame_loop E k (py_int (cap_get (VideoCapture E inp) CAP_PROP_FRAME_COUNT))
           (cap_frames (VideoCapture E inp))
           (initial_state (open_writer E (VideoCapture E inp) outp) D) = (Some e, s)"
  shows "fst (process_video E D k inp outp) = Inl e \<and>
         w_cap (snd (process_video E D k inp outp)) = VideoCapture E inp \<and>
         (\<exists>out. w_out (snd (process_video E D k inp outp)) = Some out \<and> \<not> wr_released out)"
proof -
  from frame_loop_trace[OF assms(2)]
  have "\<not> wr_released (ls_out s)"
    by (auto simp: foldl_wr_write split: if_splits)
  then show ?thesis
    by (simp add: process_video_raised[OF assms])
qed

text \<open>Evaluation of the example environments.\<close>

lemma example_detect_body:
  "pixels f \<noteq> 2 \<Longrightarrow> detect_body example_env f = Inr [example_person, example_ball]"
  "pixels f = 2 \<Longrightarrow> detect_body example_env f = Inl (ModelError ''inference failed'')"
  "pixels f \<noteq> 2 \<Longrightarrow> detect_body service_env f = Inr [example_person, example_ball]"
  "pixels f = 2 \<Longrightarrow> detect_body service_env f = Inl (ModelError ''inference failed'')"
  by (simp_all add: detect_body_def service_env_def example_env_def make_detection_def
      sports_classes_def classify_person_role_def example_person_def example_ball_def Let_def)

lemma example_labels:
  "label_of example_env example_ball = ''sports ball: 0.00 (ball)''"
  "label_of example_env example_person = ''person: 0.00 (player)''"
  "getTextSize example_env text = (9 * int (length text), 11)"
  "label_of service_env example_ball = ''sports ball: 0.00 (ball)''"
  "label_of service_env example_person = ''person: 0.00 (player)''"
  "getTextSize service_env text = (9 * int (length text), 11)"
  by (simp_all add: label_of_def example_ball_def example_person_def service_env_def
      example_env_def)

lemma example_drawable:
  "drawable example_env example_person" "drawable example_env example_ball"
  "drawable service_env example_person" "drawable service_env example_ball"
  by (simp_all add: drawable_def example_labels label_y_def fits_c_int_def Let_def)
     (simp_all add: example_person_def example_ball_def)

lemma example_annotatable:
  "80 \<le> h \<Longrightarrow> annotatable example_env (example_frame h i)"
  "80 \<le> h \<Longrightarrow> annotatable service_env (example_frame h i)"
  by (cases "i = 2";
      simp add: annotatable_def detected_def example_detect_body example_drawable
        overlay_height_def)+

lemma example_detected [simp]:
  "length (detected example_env (example_frame h 0)) = 2"
  "detected example_env (example_frame h 2) = []"
  by (simp_all add: detected_def example_detect_body)

lemma example_selected [simp]:
  "selected 2 0" "\<not> selected 2 (Suc 0)" "selected 2 (Suc (Suc 0))" "selected 1 n"
  by (simp_all add: selected_def)

text \<open>
  C1, as amended. When the input opens, the output container can be created, the stride
  is not zero and nothing raises inside the loop (every frame that undergoes detection is
  at least as high as the information band and has only detections whose coordinates fit
  a C \<^verbatim>\<open>int\<close>, and the frame count of the metadata is not zero or fewer than a hundred
  frames undergo detection), \<^verbatim>\<open>process_video\<close> writes exactly as many frames as the input
  has, skipped frames verbatim, to a writer opened with the width, height and frame rate
  of the input truncated to integers: with the frame rate of the input itself when that
  is an integer.
\<close>

theorem output_covers_input:
  assumes opened: "cap_opened (VideoCapture E inp)"
    and creatable: "wr_opened (open_writer E (VideoCapture E inp) outp)"
    and skip: "frame_skip \<noteq> 0"
    and ann: "\<forall>i<length (cap_frames (VideoCapture E inp)).
                int i mod frame_skip = 0 \<longrightarrow> annotatable E (cap_frames (VideoCapture E inp) ! i)"
    and count: "py_int (cap_get (VideoCapture E inp) CAP_PROP_FRAME_COUNT) \<noteq> 0 \<or>
                length (filter (\<lambda>i. int i mod frame_skip = 0)
                          [0..<length (cap_frames (VideoCapture E inp))]) < 100"
  shows "\<exists>out. w_out (snd (process_video E D frame_skip inp outp)) = Some out \<and>
           length (wr_frames out) = length (cap_frames (VideoCapture E inp)) \<and>
           wr_fps out = py_int (cap_get (VideoCapture E inp) CAP_PROP_FPS) \<and>
           wr_size out = (py_int (cap_get (VideoCapture E inp) CAP_PROP_FRAME_WIDTH),
                          py_int (cap_get (VideoCapture E inp) CAP_PROP_FRAME_HEIGHT)) \<and>
           (\<forall>n. cap_get (VideoCapture E inp) CAP_PROP_FPS = of_int n \<longrightarrow> wr_fps out = n) \<and>
           (\<forall>i<length (cap_frames (VideoCapture E inp)).
              int i mod frame_skip \<noteq> 0 \<longrightarrow>
                wr_frames out ! i = cap_frames (VideoCapture E inp) ! i)"
proof -
  have ann': "\<forall>i<length (cap_frames (VideoCapture E inp)).
                selected frame_skip i \<longrightarrow> annotatable E (cap_frames (VideoCapture E inp) ! i)"
    using ann by (simp add: selected_def)
  have count': "py_int (cap_get (VideoCapture E inp) CAP_PROP_FRAME_COUNT) \<noteq> 0 \<or>
                length (filter (selected frame_skip)
                          [0..<length (cap_frames (VideoCapture E inp))]) < 100"
  proof -
    have "selected frame_skip = (\<lambda>i. int i mod frame_skip = 0)"
      by (rule ext) (simp add: selected_def)
    then show ?thesis using count by simp
  qed
  from process_video_completes[OF opened skip ann' count', of D outp]
  obtain s where "w_out (snd (process_video E D frame_skip inp outp)) =
      Some (release_out (foldl wr_write (open_writer E (VideoCapture E inp) outp)
              (expected_frames E frame_skip 0 (cap_frames (VideoCapture E inp)))))"
    by (auto split: if_splits)
  then show ?thesis
    using creatable by (simp add: written_frames nth_expected_frames selected_def)
qed

theorem output_covers_input_witness:
  "cap_opened (VideoCapture example_env ''in.mp4'') \<and>
   wr_opened (open_writer example_env (VideoCapture example_env ''in.mp4'') ''out.mp4'') \<and>
   (2::int) \<noteq> 0 \<and>
   list_all (annotatable example_env) (cap_frames (VideoCapture example_env ''in.mp4'')) \<and>
   py_int (cap_get (VideoCapture example_env ''in.mp4'') CAP_PROP_FRAME_COUNT) \<noteq> 0 \<and>
   int 1 mod 2 \<noteq> 0 \<and>
   (\<exists>out. w_out (snd (process_video example_env new_detector 2 ''in.mp4'' ''out.mp4'')) = Some out \<and>
          length (wr_frames out) = 3 \<and> wr_fps out = 30 \<and> wr_size out = (640, 480) \<and>
          wr_frames out ! 1 = example_frame 480 1)"
proof -
  have h1: "cap_opened (VideoCapture example_env ''in.mp4'')" by simp
  have h2: "wr_opened (open_writer example_env (VideoCapture example_env ''in.mp4'') ''out.mp4'')"
    by simp
  have h3: "(2::int) \<noteq> 0" by simp
  have a: "list_all (annotatable example_env) (cap_frames (VideoCapture example_env ''in.mp4''))"
    by (simp add: example_annotatable)
  then have h4: "\<forall>i<length (cap_frames (VideoCapture example_env ''in.mp4'')).
      int i mod 2 = 0 \<longrightarrow> annotatable example_env (cap_frames (VideoCapture example_env ''in.mp4'') ! i)"
    by (simp add: list_all_length)
  have c: "py_int (cap_get (VideoCapture example_env ''in.mp4'') CAP_PROP_FRAME_COUNT) \<noteq> 0"
    by simp
  then have h5: "py_int (cap_get (VideoCapture example_env ''in.mp4'') CAP_PROP_FRAME_COUNT) \<noteq> 0 \<or>
      length (filter (\<lambda>i. int i mod 2 = 0)
                [0..<length (cap_frames (VideoCapture example_env ''in.mp4''))]) < 100"
    by simp
  have h6: "int 1 mod 2 \<noteq> 0" by simp
  from output_covers_input[OF h1 h2 h3 h4 h5, of new_detector]
  obtain out where o: "w_out (snd (process_video example_env new_detector 2 ''in.mp4'' ''out.mp4'')) = Some out"
    "length (wr_frames out) = length (cap_frames (VideoCapture example_env ''in.mp4''))"
    "wr_fps out = py_int (cap_get (VideoCapture example_env ''in.mp4'') CAP_PROP_FPS)"
    "wr_size out = (py_int (cap_get (VideoCapture example_env ''in.mp4'') CAP_PROP_FRAME_WIDTH),
                    py_int (cap_get (VideoCapture example_env ''in.mp4'') CAP_PROP_FRAME_HEIGHT))"
    "\<forall>i<length (cap_frames (VideoCapture example_env ''in.mp4'')).
        int i mod 2 \<noteq> 0 \<longrightarrow> wr_frames out ! i = cap_frames (VideoCapture example_env ''in.mp4'') ! i"
    by blast
  from o(5)[rule_format, of 1] have "wr_frames out ! 1 = example_frame 480 1" by simp
  with o(1-4) have "w_out (snd (process_video example_env new_detector 2 ''in.mp4'' ''out.mp4'')) = Some out \<and>
          length (wr_frames out) = 3 \<and> wr_fps out = 30 \<and> wr_size out = (640, 480) \<and>
          wr_frames out ! 1 = example_frame 480 1"
    by simp
  then show ?thesis using h1 h2 h3 a c h6 by blast
qed

theorem output_covers_input_counterexample:
  "cap_opened (VideoCapture example_env ''ntsc.mp4'') \<and>
   writer_opens example_env ''out.mp4'' ''mp4v'' 29 (640, 480) \<and>
   cap_get (VideoCapture example_env ''ntsc.mp4'') CAP_PROP_FPS = 2997 / 100 \<and>
   map_option wr_fps (w_out (snd (process_video example_env new_detector 1 ''ntsc.mp4'' ''out.mp4'')))
     = Some 29 \<and>
   length (cap_frames (VideoCapture example_env ''in.mp4'')) = 3 \<and>
   fst (process_video example_env new_detector 0 ''in.mp4'' ''out.mp4'') = Inl ZeroDivisionError \<and>
   map_option wr_frames (w_out (snd (process_video example_env new_detector 0 ''in.mp4'' ''out.mp4'')))
     = Some []"
proof -
  have h1: "cap_opened (VideoCapture example_env ''ntsc.mp4'')" by simp
  have h3: "(1::int) \<noteq> 0" by simp
  have h4: "\<forall>i<length (cap_frames (VideoCapture example_env ''ntsc.mp4'')).
              selected 1 i \<longrightarrow> annotatable example_env (cap_frames (VideoCapture example_env ''ntsc.mp4'') ! i)"
    by (simp add: example_annotatable less_Suc_eq numeral_3_eq_3)
  have h5: "py_int (cap_get (VideoCapture example_env ''ntsc.mp4'') CAP_PROP_FRAME_COUNT) \<noteq> 0 \<or>
            length (filter (selected 1) [0..<length (cap_frames (VideoCapture example_env ''ntsc.mp4''))]) < 100"
    by simp
  from process_video_completes[OF h1 h3 h4 h5, of new_detector "''out.mp4''"]
  have a: "map_option wr_fps (w_out (snd (process_video example_env new_detector 1 ''ntsc.mp4'' ''out.mp4'')))
     = Some 29"
    by (auto simp: py_int_ntsc written_frames
             simp del: example_capture_simps(3) expected_frames.simps foldl.simps selected_frames.simps)
  have b: "process_video example_env new_detector 0 ''in.mp4'' ''out.mp4'' =
     (Inl ZeroDivisionError,
      \<lparr>w_cap = example_capture 480 30 3,
       w_out = Some (open_writer example_env (example_capture 480 30 3) ''out.mp4''),
       w_detector = new_detector\<rparr>)"
    by (simp add: process_video_def loop_body_eq initial_state_def Let_def)
  show ?thesis using a b by simp
qed

text \<open>
  C4, at inputs where the code breaks it. A video whose frames are 48 pixels high makes
  the first annotation raise inside the loop, and a stride of 0 makes the first
  \<^verbatim>\<open>frame_num % frame_skip\<close> raise: the exception propagates and leaves the capture and
  the writer, both open, unreleased.
\<close>

theorem handles_leak_on_raise:
  "fst (process_video example_env new_detector 1 ''small.mp4'' ''out.mp4'') =
     Inl (CvError ''Sizes of input arguments do not match'') \<and>
   cap_opened (w_cap (snd (process_video example_env new_detector 1 ''small.mp4'' ''out.mp4''))) \<and>
   \<not> cap_released (w_cap (snd (process_video example_env new_detector 1 ''small.mp4'' ''out.mp4''))) \<and>
   map_option wr_opened
     (w_out (snd (process_video example_env new_detector 1 ''small.mp4'' ''out.mp4''))) = Some True \<and>
   map_option wr_released
     (w_out (snd (process_video example_env new_detector 1 ''small.mp4'' ''out.mp4''))) = Some False \<and>
   fst (process_video example_env new_detector 0 ''in.mp4'' ''out.mp4'') = Inl ZeroDivisionError \<and>
   \<not> cap_released (w_cap (snd (process_video example_env new_detector 0 ''in.mp4'' ''out.mp4''))) \<and>
   map_option wr_released
     (w_out (snd (process_video example_env new_detector 0 ''in.mp4'' ''out.mp4''))) = Some False"
proof -
  let ?cap = "VideoCapture example_env ''small.mp4''"
  let ?s0 = "initial_state (open_writer example_env ?cap ''out.mp4'') new_detector"
  have h: "cap_opened ?cap" by simp
  have d: "list_all (drawable example_env) (detected example_env (example_frame 48 0))"
    by (simp add: detected_def example_detect_body example_drawable)
  have a: "frame_loop example_env 1 (py_int (cap_get ?cap CAP_PROP_FRAME_COUNT)) (cap_frames ?cap) ?s0
           = (Some (CvError ''Sizes of input arguments do not match''),
              ?s0\<lparr>ls_detector := snd (detect_frame example_env new_detector (example_frame 48 0))\<rparr>)"
    by (simp add: loop_body_eq d overlay_height_def)
  have b: "process_video example_env new_detector 0 ''in.mp4'' ''out.mp4'' =
     (Inl ZeroDivisionError,
      \<lparr>w_cap = example_capture 480 30 3,
       w_out = Some (open_writer example_env (example_capture 480 30 3) ''out.mp4''),
       w_detector = new_detector\<rparr>)"
    by (simp add: process_video_def loop_body_eq initial_state_def Let_def)
  note c = process_video_raised[OF h a]
  show ?thesis by (simp add: b c)
qed

text \<open>
  C5, at an input where the code breaks it. A path that does not open raises (a
  \<^verbatim>\<open>ValueError\<close>) and no dictionary is returned; but when the output container cannot
  be created, \<^verbatim>\<open>process_video\<close> raises nothing: no frame reaches the writer, and the
  dictionary is returned with all three frames counted as processed.
\<close>

theorem unopened_output_returns_result:
  "\<not> cap_opened (VideoCapture example_env ''nope.mp4'') \<and>
   fst (process_video example_env new_detector 1 ''nope.mp4'' ''out.mp4'') =
     Inl (ValueError ''Could not open video: nope.mp4'') \<and>
   cap_opened (VideoCapture example_env ''in.mp4'') \<and>
   \<not> writer_opens example_env ''nodir/out.mp4'' ''mp4v'' 30 (640, 480) \<and>
   map_option wr_opened
     (w_out (snd (process_video example_env new_detector 1 ''in.mp4'' ''nodir/out.mp4''))) = Some False \<and>
   map_option wr_frames
     (w_out (snd (process_video example_env new_detector 1 ''in.mp4'' ''nodir/out.mp4''))) = Some [] \<and>
   (\<exists>r. fst (process_video example_env new_detector 1 ''in.mp4'' ''nodir/out.mp4'') = Inr r \<and>
        processed_frames r = 3 \<and> output_path r = ''nodir/out.mp4'')"
proof -
  have a: "fst (process_video example_env new_detector 1 ''nope.mp4'' ''out.mp4'') =
     Inl (ValueError ''Could not open video: nope.mp4'')"
    by (simp add: process_video_closed closed_capture_def)
  have h1: "cap_opened (VideoCapture example_env ''in.mp4'')" by simp
  have h3: "(1::int) \<noteq> 0" by simp
  have h4: "\<forall>i<length (cap_frames (VideoCapture example_env ''in.mp4'')).
              selected 1 i \<longrightarrow> annotatable example_env (cap_frames (VideoCapture example_env ''in.mp4'') ! i)"
    by (simp add: example_annotatable less_Suc_eq numeral_3_eq_3)
  have h5: "py_int (cap_get (VideoCapture example_env ''in.mp4'') CAP_PROP_FRAME_COUNT) \<noteq> 0 \<or>
            length (filter (selected 1) [0..<length (cap_frames (VideoCapture example_env ''in.mp4''))]) < 100"
    by simp
  from process_video_completes[OF h1 h3 h4 h5, of new_detector "''nodir/out.mp4''"]
  obtain s where pv: "process_video example_env new_detector 1 ''in.mp4'' ''nodir/out.mp4'' =
      (Inr (final_results example_env (example_capture 480 30 3) ''in.mp4'' ''nodir/out.mp4'' s),
       \<lparr>w_cap = release_cap (example_capture 480 30 3),
        w_out = Some (release_out (foldl wr_write
                  (open_writer example_env (example_capture 480 30 3) ''nodir/out.mp4'')
                  (expected_frames example_env 1 0 (cap_frames (example_capture 480 30 3))))),
        w_detector = detector_after example_env new_detector
                       (selected_frames 1 0 (cap_frames (example_capture 480 30 3)))\<rparr>)"
    and n: "ls_processed_frames s = length (filter (selected 1) [0..<length (cap_frames (example_capture 480 30 3))])"
    by (auto simp del: example_capture_simps(3) expected_frames.simps foldl.simps
          selected_frames.simps)
  have p: "processed_frames (final_results example_env (example_capture 480 30 3) ''in.mp4'' ''nodir/out.mp4'' s) = 3"
    using n by (simp add: final_results_def Let_def numeral_3_eq_3)
  have q: "output_path (final_results example_env (example_capture 480 30 3) ''in.mp4'' ''nodir/out.mp4'' s)
        = ''nodir/out.mp4''"
    by (simp add: final_results_def Let_def)
  show ?thesis
    using a p q by (simp add: pv written_frames closed_capture_def del: foldl.simps)
qed

text \<open>
  C2. Whatever the stride and however the run ends, \<^verbatim>\<open>detect_frame\<close> is called on the
  frames whose index the stride divides, in input order, and on no other frame: the
  detector is left in the state that these calls, on the frames read so far, produce from
  its initial state, so that its count of inferences has grown by the number of those
  frames on which the model did not raise. The frame written at position \<open>i\<close> of the
  output is frame \<open>i\<close> of the input annotated with the detections of that frame when
  \<open>i % frame_skip == 0\<close>, and frame \<open>i\<close> itself, unannotated, otherwise; and the returned
  count of processed frames is the number of frame indices divisible by the stride, so
  that no other frame is counted.
\<close>

theorem detection_stride:
  assumes run: "process_video E D frame_skip inp outp = (res, w)"
    and out: "w_out w = Some out"
  shows "length (wr_frames out) \<le> length (cap_frames (VideoCapture E inp)) \<and>
         (\<forall>i<length (wr_frames out).
            (int i mod frame_skip = 0 \<longrightarrow>
               wr_frames out ! i = annotate E i (cap_frames (VideoCapture E inp) ! i) \<and>
               wr_frames out ! i \<noteq> cap_frames (VideoCapture E inp) ! i) \<and>
            (int i mod frame_skip \<noteq> 0 \<longrightarrow>
               wr_frames out ! i = cap_frames (VideoCapture E inp) ! i)) \<and>
         (\<exists>m. length (wr_frames out) \<le> m \<and> m \<le> length (cap_frames (VideoCapture E inp)) \<and>
            w_detector w =
              detector_after E D
                (map (\<lambda>i. cap_frames (VideoCapture E inp) ! i)
                   (filter (\<lambda>i. int i mod frame_skip = 0) [0..<m])) \<and>
            total_inferences (w_detector w) =
              total_inferences D +
              length (filter (\<lambda>i. int i mod frame_skip = 0 \<and>
                                \<not> isl (detect_body E (cap_frames (VideoCapture E inp) ! i)))
                        [0..<m]) \<and>
            (\<forall>r. res = Inr r \<longrightarrow> m = length (cap_frames (VideoCapture E inp)))) \<and>
         (\<forall>r. res = Inr r \<longrightarrow>
            processed_frames r =
              length (filter (\<lambda>i. int i mod frame_skip = 0)
                        [0..<length (cap_frames (VideoCapture E inp))]) \<and>
            (wr_opened out \<longrightarrow>
               length (wr_frames out) = length (cap_frames (VideoCapture E inp))))"
proof -
  let ?cap = "VideoCapture E inp"
  let ?fs = "cap_frames ?cap"
  let ?s0 = "initial_state (open_writer E ?cap outp) D"
  let ?tf = "py_int (cap_get ?cap CAP_PROP_FRAME_COUNT)"
  have sel: "selected frame_skip = (\<lambda>i. int i mod frame_skip = 0)"
    by (rule ext) (simp add: selected_def)
  have opened: "cap_opened ?cap"
    using run out by (cases "cap_opened ?cap") (auto simp: process_video_closed)
  obtain r s where loop: "frame_loop E frame_skip ?tf ?fs ?s0 = (r, s)"
    by (cases "frame_loop E frame_skip ?tf ?fs ?s0")
  from frame_loop_trace[OF loop] obtain mw m where mw: "mw \<le> m" and m: "m \<le> length ?fs"
    and lo: "ls_out s = foldl wr_write (open_writer E ?cap outp) (take mw (expected_frames E frame_skip 0 ?fs))"
    and ld: "ls_detector s = detector_after E D (selected_frames frame_skip 0 (take m ?fs))"
    and full: "r = None \<longrightarrow> mw = length ?fs"
    by auto
  have ow: "wr_frames out = wr_frames (ls_out s) \<and> w_detector w = ls_detector s"
  proof (cases r)
    case None
    with process_video_finished[OF opened loop[unfolded None]] run out
    show ?thesis by (auto split: if_splits)
  next
    case (Some e)
    with process_video_raised[OF opened loop[unfolded Some]] run out
    show ?thesis by auto
  qed
  have frames: "wr_frames out = (if wr_opened (open_writer E ?cap outp)
                                 then take mw (expected_frames E frame_skip 0 ?fs) else [])"
    using ow by (simp add: lo written_frames)
  have len: "length (wr_frames out) \<le> length ?fs"
    using m mw by (simp add: frames)
  have lenm: "length (wr_frames out) \<le> m"
    using m mw by (simp add: frames)
  have nth: "\<forall>i<length (wr_frames out).
      wr_frames out ! i = (if selected frame_skip i then annotate E i (?fs ! i) else ?fs ! i)"
    using m mw by (auto simp: frames nth_expected_frames)
  have det: "w_detector w =
      detector_after E D (map (\<lambda>i. ?fs ! i) (filter (\<lambda>i. int i mod frame_skip = 0) [0..<m]))"
    using ow ld selected_frames_take[OF m, of frame_skip] by (simp add: sel)
  have inf: "total_inferences (w_detector w) =
      total_inferences D +
      length (filter (\<lambda>i. int i mod frame_skip = 0 \<and> \<not> isl (detect_body E (?fs ! i))) [0..<m])"
    unfolding det total_inferences_after
    using inferences_of_selected[of E ?fs frame_skip m] by (simp add: sel)
  have rn: "r = None" if "res = Inr r'" for r'
  proof (cases r)
    case (Some e)
    with process_video_raised[OF opened loop[unfolded Some]] run that show ?thesis by simp
  qed simp
  have mfull: "\<forall>r'. res = Inr r' \<longrightarrow> m = length ?fs"
    using rn full mw m by auto
  have fin: "\<forall>r'. res = Inr r' \<longrightarrow>
      processed_frames r' = length (filter (\<lambda>i. int i mod frame_skip = 0) [0..<length ?fs]) \<and>
      (wr_opened out \<longrightarrow> length (wr_frames out) = length ?fs)"
  proof (intro allI impI)
    fix r' assume res: "res = Inr r'"
    note rn' = rn[OF res]
    note fl = frame_loop_None[OF loop[unfolded rn']]
    from process_video_finished[OF opened loop[unfolded rn']] run res
    have r': "r' = final_results E ?cap inp outp s" and w: "out = release_out (ls_out s)"
      using out by (auto split: if_splits)
    have "processed_frames r' = length (filter (\<lambda>i. int i mod frame_skip = 0) [0..<length ?fs])"
      using fl by (simp add: r' final_results_def Let_def sel)
    moreover have "wr_opened out \<longrightarrow> length (wr_frames out) = length ?fs"
      using fl by (simp add: w written_frames)
    ultimately show "processed_frames r' = length (filter (\<lambda>i. int i mod frame_skip = 0) [0..<length ?fs]) \<and>
      (wr_opened out \<longrightarrow> length (wr_frames out) = length ?fs)" by blast
  qed
  have nth': "\<forall>i<length (wr_frames out).
            (int i mod frame_skip = 0 \<longrightarrow>
               wr_frames out ! i = annotate E i (?fs ! i) \<and> wr_frames out ! i \<noteq> ?fs ! i) \<and>
            (int i mod frame_skip \<noteq> 0 \<longrightarrow> wr_frames out ! i = ?fs ! i)"
    using nth annotate_neq unfolding selected_def by auto
  have ex: "\<exists>m. length (wr_frames out) \<le> m \<and> m \<le> length ?fs \<and>
            w_detector w =
              detector_after E D
                (map (\<lambda>i. ?fs ! i) (filter (\<lambda>i. int i mod frame_skip = 0) [0..<m])) \<and>
            total_inferences (w_detector w) =
              total_inferences D +
              length (filter (\<lambda>i. int i mod frame_skip = 0 \<and> \<not> isl (detect_body E (?fs ! i)))
                        [0..<m]) \<and>
            (\<forall>r. res = Inr r \<longrightarrow> m = length ?fs)"
    using lenm m det inf mfull by blast
  show ?thesis
    using len nth' ex fin by blast
qed

theorem detection_stride_witness:
  "\<exists>out r. w_out (snd (process_video example_env new_detector 2 ''in.mp4'' ''out.mp4'')) = Some out \<and>
      fst (process_video example_env new_detector 2 ''in.mp4'' ''out.mp4'') = Inr r \<and>
      length (wr_frames out) = 3 \<and>
      wr_frames out ! 0 = annotate example_env 0 (example_frame 480 0) \<and>
      wr_frames out ! 1 = example_frame 480 1 \<and>
      wr_frames out ! 2 = annotate example_env 2 (example_frame 480 2) \<and>
      processed_frames r = 2 \<and>
      w_detector (snd (process_video example_env new_detector 2 ''in.mp4'' ''out.mp4'')) =
        detector_after example_env new_detector [example_frame 480 0, example_frame 480 2] \<and>
      total_inferences
        (w_detector (snd (process_video example_env new_detector 2 ''in.mp4'' ''out.mp4''))) = 1"
proof -
  let ?pv = "process_video example_env new_detector 2 ''in.mp4'' ''out.mp4''"
  let ?fs = "cap_frames (VideoCapture example_env ''in.mp4'')"
  let ?out = "release_out (foldl wr_write
             (open_writer example_env (VideoCapture example_env ''in.mp4'') ''out.mp4'')
             (expected_frames example_env 2 0 ?fs))"
  have run: "?pv = (fst ?pv, snd ?pv)" by simp
  have h1: "cap_opened (VideoCapture example_env ''in.mp4'')" by simp
  have h3: "(2::int) \<noteq> 0" by simp
  have h4: "\<forall>i<length ?fs. selected 2 i \<longrightarrow> annotatable example_env (?fs ! i)"
    by (simp add: example_annotatable less_Suc_eq numeral_3_eq_3)
  have h5: "py_int (cap_get (VideoCapture example_env ''in.mp4'') CAP_PROP_FRAME_COUNT) \<noteq> 0 \<or>
            length (filter (selected 2) [0..<length ?fs]) < 100"
    by simp
  from process_video_completes[OF h1 h3 h4 h5, of new_detector "''out.mp4''"]
  obtain s where pv: "?pv = (Inr (final_results example_env (VideoCapture example_env ''in.mp4'')
                                    ''in.mp4'' ''out.mp4'' s),
       \<lparr>w_cap = release_cap (VideoCapture example_env ''in.mp4''),
        w_out = Some ?out,
        w_detector = detector_after example_env new_detector (selected_frames 2 0 ?fs)\<rparr>)"
    by (auto simp del: example_capture_simps(3) expected_frames.simps foldl.simps
          selected_frames.simps example_captures)
  have out: "w_out (snd ?pv) = Some ?out" by (simp add: pv)
  have r: "fst ?pv = Inr (final_results example_env (VideoCapture example_env ''in.mp4'')
                                    ''in.mp4'' ''out.mp4'' s)"
    by (simp add: pv)
  have len: "length (wr_frames ?out) = 3" by (simp add: wr_write_def)
  note t = detection_stride[OF run out]
  from t have nth: "\<forall>i<length (wr_frames ?out).
            (int i mod 2 = 0 \<longrightarrow>
               wr_frames ?out ! i = annotate example_env i (?fs ! i) \<and>
               wr_frames ?out ! i \<noteq> ?fs ! i) \<and>
            (int i mod 2 \<noteq> 0 \<longrightarrow> wr_frames ?out ! i = ?fs ! i)"
    by (elim conjE)
  from t r have p: "processed_frames (final_results example_env (VideoCapture example_env ''in.mp4'')
                                    ''in.mp4'' ''out.mp4'' s) =
      length (filter (\<lambda>i. int i mod 2 = 0) [0..<length ?fs])"
    by blast
  from t obtain m where m: "m \<le> length ?fs"
    and d: "w_detector (snd ?pv) =
              detector_after example_env new_detector
                (map (\<lambda>i. ?fs ! i) (filter (\<lambda>i. int i mod 2 = 0) [0..<m]))"
    and i: "total_inferences (w_detector (snd ?pv)) =
              total_inferences new_detector +
              length (filter (\<lambda>i. int i mod 2 = 0 \<and> \<not> isl (detect_body example_env (?fs ! i)))
                        [0..<m])"
    and mf: "\<forall>r. fst ?pv = Inr r \<longrightarrow> m = length ?fs"
    by blast
  from mf r have m3: "m = 3" by simp
  have l0: "0 < length (wr_frames ?out)" and l1: "1 < length (wr_frames ?out)"
    and l2: "2 < length (wr_frames ?out)"
    unfolding len by simp_all
  have n0: "wr_frames ?out ! 0 = annotate example_env 0 (example_frame 480 0)"
    using nth[rule_format, OF l0] by simp
  have n1: "wr_frames ?out ! 1 = example_frame 480 1"
    using nth[rule_format, OF l1] by simp
  have n2: "wr_frames ?out ! 2 = annotate example_env 2 (example_frame 480 2)"
    using nth[rule_format, OF l2] by simp
  have p2: "processed_frames (final_results example_env (VideoCapture example_env ''in.mp4'')
                                    ''in.mp4'' ''out.mp4'' s) = 2"
    using p by (simp add: numeral_3_eq_3)
  have d2: "w_detector (snd ?pv) =
        detector_after example_env new_detector [example_frame 480 0, example_frame 480 2]"
    using d by (simp add: m3 numeral_3_eq_3)
  have i2: "total_inferences (w_detector (snd ?pv)) = 1"
    using i by (simp add: m3 numeral_3_eq_3 example_detect_body new_detector_def)
  show ?thesis
    using out r len n0 n1 n2 p2 d2 i2 by blast
qed

text \<open>
  C3, where the code breaks it. In the service the module logger of \<^verbatim>\<open>videoprocessor.py\<close>
  is a standard-library logger enabled for INFO. On a three-frame video whose last frame
  makes the model raise, read with a stride of 2, \<^verbatim>\<open>detect_frame\<close> reports no detection
  for that frame, the loop goes on, all three frames are written and both handles are
  released; then the last \<^verbatim>\<open>logger.info\<close> call, which passes the metrics as keyword
  arguments, raises \<^verbatim>\<open>TypeError\<close>, and \<^verbatim>\<open>process_video\<close> raises instead of returning its
  result: the job does not complete. With the logger not enabled for INFO the same run
  returns its result.
\<close>

theorem poisoned_frame_job_fails:
  "info_enabled service_env \<and>
   cap_frames (VideoCapture service_env ''in.mp4'') =
     [example_frame 480 0, example_frame 480 1, example_frame 480 2] \<and>
   yolo service_env (example_frame 480 2) confidence_threshold
     iou_threshold = Inl (ModelError ''inference failed'') \<and>
   detections (fst (detect_frame service_env new_detector (example_frame 480 2))) = [] \<and>
   fst (process_video service_env new_detector 2 ''in.mp4'' ''out.mp4'') =
     Inl (TypeError ''Logger._log() got an unexpected keyword argument'') \<and>
   (\<exists>out. w_out (snd (process_video service_env new_detector 2 ''in.mp4'' ''out.mp4'')) = Some out \<and>
      wr_opened out \<and> wr_released out \<and>
      wr_frames out = [annotate service_env 0 (example_frame 480 0), example_frame 480 1,
                       annotate service_env 2 (example_frame 480 2)]) \<and>
   cap_released (w_cap (snd (process_video service_env new_detector 2 ''in.mp4'' ''out.mp4''))) \<and>
   (\<exists>r. fst (process_video example_env new_detector 2 ''in.mp4'' ''out.mp4'') = Inr r \<and>
      processed_frames r = 2 \<and> total_detections r = 2)"
proof -
  let ?fs = "cap_frames (VideoCapture service_env ''in.mp4'')"
  have cap: "VideoCapture service_env ''in.mp4'' = example_capture 480 30 3"
    by (simp add: service_env_def)
  have a1: "info_enabled service_env" by (simp add: service_env_def)
  have a2: "?fs = [example_frame 480 0, example_frame 480 1, example_frame 480 2]"
    by (simp add: cap numeral_3_eq_3)
  have a3: "yolo service_env (example_frame 480 2) confidence_threshold
     iou_threshold = Inl (ModelError ''inference failed'')"
    by (simp add: service_env_def example_env_def)
  have a4: "detections (fst (detect_frame service_env new_detector (example_frame 480 2))) = []"
    by (simp add: detect_frame_detections detected_def example_detect_body)
  have h1: "cap_opened (VideoCapture service_env ''in.mp4'')" by (simp add: cap)
  have h3: "(2::int) \<noteq> 0" by simp
  have h4: "\<forall>i<length ?fs. selected 2 i \<longrightarrow> annotatable service_env (?fs ! i)"
    by (simp add: cap example_annotatable less_Suc_eq numeral_3_eq_3)
  have h5: "py_int (cap_get (VideoCapture service_env ''in.mp4'') CAP_PROP_FRAME_COUNT) \<noteq> 0 \<or>
            length (filter (selected 2) [0..<length ?fs]) < 100"
    by (simp add: cap)
  from process_video_completes[OF h1 h3 h4 h5, of new_detector "''out.mp4''"] a1
  have pv: "fst (process_video service_env new_detector 2 ''in.mp4'' ''out.mp4'') =
              Inl (TypeError ''Logger._log() got an unexpected keyword argument'')"
    and o: "w_out (snd (process_video service_env new_detector 2 ''in.mp4'' ''out.mp4'')) =
              Some (release_out (foldl wr_write
                     (open_writer service_env (VideoCapture service_env ''in.mp4'') ''out.mp4'')
                     (expected_frames service_env 2 0 ?fs)))"
    and c: "w_cap (snd (process_video service_env new_detector 2 ''in.mp4'' ''out.mp4'')) =
              release_cap (VideoCapture service_env ''in.mp4'')"
    by auto
  have wo: "wr_opened (open_writer service_env (VideoCapture service_env ''in.mp4'') ''out.mp4'')"
    by (simp add: cap) (simp add: service_env_def)
  have a5: "\<exists>out. w_out (snd (process_video service_env new_detector 2 ''in.mp4'' ''out.mp4'')) = Some out \<and>
      wr_opened out \<and> wr_released out \<and>
      wr_frames out = [annotate service_env 0 (example_frame 480 0), example_frame 480 1,
                       annotate service_env 2 (example_frame 480 2)]"
    unfolding o using wo by (simp add: written_frames a2 numeral_2_eq_2 del: foldl.simps)
  have a6: "cap_released (w_cap (snd (process_video service_env new_detector 2 ''in.mp4'' ''out.mp4'')))"
    unfolding c by (simp add: release_cap_def)
  have g1: "cap_opened (VideoCapture example_env ''in.mp4'')" by simp
  have g4: "\<forall>i<length (cap_frames (VideoCapture example_env ''in.mp4'')).
      selected 2 i \<longrightarrow> annotatable example_env (cap_frames (VideoCapture example_env ''in.mp4'') ! i)"
    by (simp add: example_annotatable less_Suc_eq numeral_3_eq_3)
  have g5: "py_int (cap_get (VideoCapture example_env ''in.mp4'') CAP_PROP_FRAME_COUNT) \<noteq> 0 \<or>
            length (filter (selected 2) [0..<length (cap_frames (VideoCapture example_env ''in.mp4''))]) < 100"
    by simp
  from process_video_completes[OF g1 h3 g4 g5, of new_detector "''out.mp4''"]
  have a7: "\<exists>r. fst (process_video example_env new_detector 2 ''in.mp4'' ''out.mp4'') = Inr r \<and>
      processed_frames r = 2 \<and> total_detections r = 2"
    by (auto simp: final_results_def Let_def numeral_3_eq_3)
  show ?thesis using a1 a2 a3 a4 pv a5 a6 a7 by blast
qed

text \<open>
  C6. In the dictionary that \<^verbatim>\<open>process_video\<close> returns, the average number of detections
  per frame is the total number of detections divided by the number of processed frames
  when that number is positive, and 0 when no frame was processed. No division by zero
  occurs there: once the loop has completed, \<^verbatim>\<open>process_video\<close> does not end in
  \<^verbatim>\<open>ZeroDivisionError\<close>, and on a video that opens and has no frame, so that no frame is
  processed, it returns the dictionary, with an average of 0, unless the last logging
  call raises its \<^verbatim>\<open>TypeError\<close>.
\<close>

theorem avg_detections_guarded:
  "(\<forall>r. fst (process_video E D frame_skip inp outp) = Inr r \<longrightarrow>
      avg_detections_per_frame r =
        (if processed_frames r > 0
         then of_nat (total_detections r) / of_nat (processed_frames r)
         else 0)) \<and>
   (\<forall>s. cap_opened (VideoCapture E inp) \<and>
        frame_loop E frame_skip (py_int (cap_get (VideoCapture E inp) CAP_PROP_FRAME_COUNT))
          (cap_frames (VideoCapture E inp))
          (initial_state (open_writer E (VideoCapture E inp) outp) D) = (None, s) \<longrightarrow>
        fst (process_video E D frame_skip inp outp) \<noteq> Inl ZeroDivisionError \<and>
        (\<not> info_enabled E \<longrightarrow>
           (\<exists>r. fst (process_video E D frame_skip inp outp) = Inr r \<and>
                processed_frames r = ls_processed_frames s \<and>
                total_detections r = ls_total_detections s))) \<and>
   (cap_opened (VideoCapture E inp) \<and> cap_frames (VideoCapture E inp) = [] \<longrightarrow>
      fst (process_video E D frame_skip inp outp) \<noteq> Inl ZeroDivisionError \<and>
      (\<not> info_enabled E \<longrightarrow>
         (\<exists>r. fst (process_video E D frame_skip inp outp) = Inr r \<and>
              processed_frames r = 0 \<and> total_detections r = 0 \<and>
              avg_detections_per_frame r = 0)))"
proof -
  let ?cap = "VideoCapture E inp"
  let ?pv = "process_video E D frame_skip inp outp"
  let ?loop = "frame_loop E frame_skip (py_int (cap_get ?cap CAP_PROP_FRAME_COUNT))
      (cap_frames ?cap) (initial_state (open_writer E ?cap outp) D)"
  have a: "avg_detections_per_frame r =
        (if processed_frames r > 0
         then of_nat (total_detections r) / of_nat (processed_frames r)
         else 0)" if r: "fst ?pv = Inr r" for r
  proof -
    have opened: "cap_opened ?cap"
      using r by (cases "cap_opened ?cap") (auto simp: process_video_closed)
    obtain e s where loop: "?loop = (e, s)" by (cases ?loop)
    have "r = final_results E ?cap inp outp s"
    proof (cases e)
      case None
      with process_video_finished[OF opened loop[unfolded None]] r show ?thesis
        by (auto split: if_splits)
    next
      case (Some x)
      with process_video_raised[OF opened loop[unfolded Some]] r show ?thesis by simp
    qed
    then show ?thesis by (simp add: final_results_def Let_def)
  qed
  have b: "fst ?pv \<noteq> Inl ZeroDivisionError \<and>
        (\<not> info_enabled E \<longrightarrow>
           (\<exists>r. fst ?pv = Inr r \<and> processed_frames r = ls_processed_frames s \<and>
                total_detections r = ls_total_detections s))"
    if o: "cap_opened ?cap" and l: "?loop = (None, s)" for s
    using process_video_finished[OF o l] by (simp add: final_results_def Let_def)
  have c: "fst ?pv \<noteq> Inl ZeroDivisionError \<and>
      (\<not> info_enabled E \<longrightarrow>
         (\<exists>r. fst ?pv = Inr r \<and> processed_frames r = 0 \<and> total_detections r = 0 \<and>
              avg_detections_per_frame r = 0))"
    if o: "cap_opened ?cap" and e: "cap_frames ?cap = []"
  proof -
    have l: "?loop = (None, initial_state (open_writer E ?cap outp) D)"
      by (simp add: e)
    show ?thesis
      using process_video_finished[OF o l] by (simp add: final_results_def Let_def)
  qed
  show ?thesis using a b c by blast
qed

theorem avg_detections_guarded_witness:
  "(\<exists>r. fst (process_video example_env new_detector 2 ''in.mp4'' ''out.mp4'') = Inr r \<and>
       0 < processed_frames r \<and>
       processed_frames r = 2 \<and> total_detections r = 2 \<and> avg_detections_per_frame r = 1) \<and>
   cap_opened (VideoCapture empty_env ''in.mp4'') \<and>
   cap_frames (VideoCapture empty_env ''in.mp4'') = [] \<and>
   \<not> info_enabled empty_env \<and>
   fst (process_video empty_env new_detector 0 ''in.mp4'' ''out.mp4'') \<noteq> Inl ZeroDivisionError \<and>
   (\<exists>r. fst (process_video empty_env new_detector 0 ''in.mp4'' ''out.mp4'') = Inr r \<and>
       processed_frames r = 0 \<and> total_detections r = 0 \<and> avg_detections_per_frame r = 0)"
proof -
  have h1: "cap_opened (VideoCapture example_env ''in.mp4'')" by simp
  have h3: "(2::int) \<noteq> 0" by simp
  have h4: "\<forall>i<length (cap_frames (VideoCapture example_env ''in.mp4'')).
      selected 2 i \<longrightarrow> annotatable example_env (cap_frames (VideoCapture example_env ''in.mp4'') ! i)"
    by (simp add: example_annotatable less_Suc_eq numeral_3_eq_3)
  have h5: "py_int (cap_get (VideoCapture example_env ''in.mp4'') CAP_PROP_FRAME_COUNT) \<noteq> 0 \<or>
            length (filter (selected 2) [0..<length (cap_frames (VideoCapture example_env ''in.mp4''))]) < 100"
    by simp
  from process_video_completes[OF h1 h3 h4 h5, of new_detector "''out.mp4''"]
  obtain r where r: "fst (process_video example_env new_detector 2 ''in.mp4'' ''out.mp4'') = Inr r"
    and p: "processed_frames r = 2" and t: "total_detections r = 2"
    by (auto simp: final_results_def Let_def numeral_3_eq_3)
  note g = avg_detections_guarded[of example_env new_detector 2 "''in.mp4''" "''out.mp4''"]
  from g r have "avg_detections_per_frame r =
        (if processed_frames r > 0
         then of_nat (total_detections r) / of_nat (processed_frames r) else 0)"
    by blast
  with p t have av: "avg_detections_per_frame r = 1" by simp
  have x: "\<exists>r. fst (process_video example_env new_detector 2 ''in.mp4'' ''out.mp4'') = Inr r \<and>
       0 < processed_frames r \<and>
       processed_frames r = 2 \<and> total_detections r = 2 \<and> avg_detections_per_frame r = 1"
    using r p t av by auto
  have e1: "cap_opened (VideoCapture empty_env ''in.mp4'')"
    and e2: "cap_frames (VideoCapture empty_env ''in.mp4'') = []"
    and e3: "\<not> info_enabled empty_env"
    by (simp_all add: empty_env_def empty_capture_def example_env_def)
  note z = avg_detections_guarded[of empty_env new_detector 0 "''in.mp4''" "''out.mp4''"]
  from z e1 e2 e3
  have y: "fst (process_video empty_env new_detector 0 ''in.mp4'' ''out.mp4'') \<noteq> Inl ZeroDivisionError \<and>
   (\<exists>r. fst (process_video empty_env new_detector 0 ''in.mp4'' ''out.mp4'') = Inr r \<and>
       processed_frames r = 0 \<and> total_detections r = 0 \<and> avg_detections_per_frame r = 0)"
    by blast
  show ?thesis using x e1 e2 e3 y by blast
qed

subsection \<open>The dictionary of \<^verbatim>\<open>detect_frame\<close>\<close>



lemma make_detection_cases:
  "\<not> kept row \<Longrightarrow> make_detection E i row = Inr None"
  "kept row \<Longrightarrow> \<not> resolvable E row \<Longrightarrow> make_detection E i row = Inl (KeyError ''names'')"
  "kept row \<Longrightarrow> resolvable E row \<Longrightarrow> \<exists>d. make_detection E i row = Inr (Some d) \<and> det_id d = i"
  by (cases row; auto simp: make_detection_def kept_def resolvable_def Let_def)+

lemma filter_upt_Suc:
  "filter P [0..<Suc n] = (if P 0 then [0] else []) @ map Suc (filter (\<lambda>j. P (Suc j)) [0..<n])"
proof -
  have "[0..<Suc n] = 0 # map Suc [0..<n]"
    by (simp add: upt_conv_Cons map_Suc_upt del: upt_Suc)
  then show ?thesis by (simp add: filter_map comp_def del: upt_Suc)
qed

lemma extract_detections_resolvable:
  "list_all (resolvable E) boxes \<Longrightarrow>
   \<exists>dets. extract_detections E i boxes acc = Inr (acc @ dets) \<and>
          map det_id dets = map (\<lambda>j. i + j) (filter (\<lambda>j. kept (boxes ! j)) [0..<length boxes])"
proof (induction boxes arbitrary: i acc)
  case Nil
  then show ?case by simp
next
  case (Cons row rest)
  then have res: "resolvable E row" and rest: "list_all (resolvable E) rest" by simp_all
  show ?case
  proof (cases "kept row")
    case False
    from Cons.IH[OF rest, of "Suc i" acc] obtain dets where
      "extract_detections E (Suc i) rest acc = Inr (acc @ dets)"
      "map det_id dets = map (\<lambda>j. Suc i + j) (filter (\<lambda>j. kept (rest ! j)) [0..<length rest])"
      by blast
    then show ?thesis
      using False make_detection_cases(1)[OF False, of E i]
      by (simp add: filter_upt_Suc del: upt_Suc)
  next
    case True
    from make_detection_cases(3)[OF True res, of i] obtain d where
      d: "make_detection E i row = Inr (Some d)" "det_id d = i" by blast
    from Cons.IH[OF rest, of "Suc i" "acc @ [d]"] obtain dets where
      "extract_detections E (Suc i) rest (acc @ [d]) = Inr ((acc @ [d]) @ dets)"
      "map det_id dets = map (\<lambda>j. Suc i + j) (filter (\<lambda>j. kept (rest ! j)) [0..<length rest])"
      by blast
    then show ?thesis
      using True d
      by (intro exI[of _ "d # dets"]) (simp add: filter_upt_Suc del: upt_Suc)
  qed
qed

lemma extract_detections_unresolvable:
  "\<not> list_all (resolvable E) boxes \<Longrightarrow>
   extract_detections E i boxes acc = Inl (KeyError ''names'')"
proof (induction boxes arbitrary: i acc)
  case Nil
  then show ?case by simp
next
  case (Cons row rest)
  show ?case
  proof (cases "resolvable E row")
    case False
    then have "kept row" by (cases row) (auto simp: resolvable_def)
    from make_detection_cases(2)[OF this False] show ?thesis by simp
  next
    case True
    with Cons.prems have rest: "\<not> list_all (resolvable E) rest" by simp
    show ?thesis
    proof (cases "kept row")
      case False
      with make_detection_cases(1)[OF False, of E i] Cons.IH[OF rest] show ?thesis by simp
    next
      case k: True
      from make_detection_cases(3)[OF k True, of i] obtain d where
        "make_detection E i row = Inr (Some d)" by blast
      with Cons.IH[OF rest] show ?thesis by simp
    qed
  qed
qed

lemma detect_body_results:
  "yolo E f confidence_threshold iou_threshold = Inr results \<Longrightarrow>
   detect_body E f = extract_detections E 0 (first_boxes results) []"
  by (simp add: detect_body_def first_boxes_def split: list.splits option.splits)


text \<open>
  C10. \<^verbatim>\<open>detect_frame\<close> returns a dictionary on every frame and never raises, whatever
  the model does. When the model call raises, and when a kept row has a class without a
  name, it returns the dictionary with an empty list of detections and the error message,
  and leaves the metrics of the detector as they were. When the model call returns and
  every kept row has a named class, it returns the detections (one for each kept row of
  the first result, identified by the index of its row), the inference time, the shape of
  the frame and the confidence threshold, with no error field, and counts the inference.
\<close>

theorem detect_frame_never_raises:
  "(\<forall>e. yolo E f confidence_threshold iou_threshold = Inl e \<longrightarrow>
      detect_frame E D f =
        (\<lparr>detections = [], inference_time = detect_elapsed E f, frame_shape = None,
          model_confidence = None, error_msg = Some (str_error e)\<rparr>, D)) \<and>
   (\<forall>results. yolo E f confidence_threshold iou_threshold = Inr results \<and>
               \<not> list_all (resolvable E) (first_boxes results) \<longrightarrow>
      detect_frame E D f =
        (\<lparr>detections = [], inference_time = detect_elapsed E f, frame_shape = None,
          model_confidence = None, error_msg = Some (str_error (KeyError ''names''))\<rparr>, D)) \<and>
   (\<forall>results. yolo E f confidence_threshold iou_threshold = Inr results \<and>
               list_all (resolvable E) (first_boxes results) \<longrightarrow>
      (\<exists>dets.
         detect_frame E D f =
           (\<lparr>detections = dets, inference_time = detect_elapsed E f,
             frame_shape = Some (rows f, cols f, 3),
             model_confidence = Some confidence_threshold, error_msg = None\<rparr>,
            D\<lparr>total_inferences := total_inferences D + 1,
              total_inference_time := total_inference_time D + detect_elapsed E f\<rparr>) \<and>
         map det_id dets =
           filter (\<lambda>i. kept (first_boxes results ! i)) [0..<length (first_boxes results)]))"
proof (intro conjI allI impI)
  fix e assume "yolo E f confidence_threshold iou_threshold = Inl e"
  then show "detect_frame E D f =
        (\<lparr>detections = [], inference_time = detect_elapsed E f, frame_shape = None,
          model_confidence = None, error_msg = Some (str_error e)\<rparr>, D)"
    by (simp add: detect_frame_def detect_body_def)
next
  fix results
  assume "yolo E f confidence_threshold iou_threshold = Inr results \<and>
               \<not> list_all (resolvable E) (first_boxes results)"
  then have "detect_body E f = Inl (KeyError ''names'')"
    by (simp add: detect_body_results extract_detections_unresolvable)
  then show "detect_frame E D f =
        (\<lparr>detections = [], inference_time = detect_elapsed E f, frame_shape = None,
          model_confidence = None, error_msg = Some (str_error (KeyError ''names''))\<rparr>, D)"
    by (simp add: detect_frame_def)
next
  fix results
  assume a: "yolo E f confidence_threshold iou_threshold = Inr results \<and>
               list_all (resolvable E) (first_boxes results)"
  with extract_detections_resolvable[of E "first_boxes results" 0 "[]"]
  obtain dets where "detect_body E f = Inr dets"
    and ids: "map det_id dets =
           filter (\<lambda>i. kept (first_boxes results ! i)) [0..<length (first_boxes results)]"
    by (auto simp: detect_body_results)
  then have "detect_frame E D f =
           (\<lparr>detections = dets, inference_time = detect_elapsed E f,
             frame_shape = Some (rows f, cols f, 3),
             model_confidence = Some confidence_threshold, error_msg = None\<rparr>,
            D\<lparr>total_inferences := total_inferences D + 1,
              total_inference_time := total_inference_time D + detect_elapsed E f\<rparr>)"
    by (simp add: detect_frame_def)
  with ids show "\<exists>dets.
         detect_frame E D f =
           (\<lparr>detections = dets, inference_time = detect_elapsed E f,
             frame_shape = Some (rows f, cols f, 3),
             model_confidence = Some confidence_threshold, error_msg = None\<rparr>,
            D\<lparr>total_inferences := total_inferences D + 1,
              total_inference_time := total_inference_time D + detect_elapsed E f\<rparr>) \<and>
         map det_id dets =
           filter (\<lambda>i. kept (first_boxes results ! i)) [0..<length (first_boxes results)]"
    by blast
qed

theorem detect_frame_never_raises_witness:
  "yolo example_env (example_frame 480 2) confidence_threshold iou_threshold
     = Inl (ModelError ''inference failed'') \<and>
   detect_frame example_env new_detector (example_frame 480 2) =
     (\<lparr>detections = [], inference_time = 1 / 50, frame_shape = None,
       model_confidence = None, error_msg = Some ''inference failed''\<rparr>, new_detector) \<and>
   (\<exists>results. yolo nameless_env (example_frame 480 0) confidence_threshold iou_threshold
                = Inr results \<and>
              \<not> list_all (resolvable nameless_env) (first_boxes results)) \<and>
   detect_frame nameless_env new_detector (example_frame 480 0) =
     (\<lparr>detections = [], inference_time = 1 / 50, frame_shape = None,
       model_confidence = None, error_msg = Some ''names''\<rparr>, new_detector) \<and>
   (\<exists>results. yolo example_env (example_frame 480 0) confidence_threshold iou_threshold
                = Inr results \<and>
              list_all (resolvable example_env) (first_boxes results)) \<and>
   (\<exists>dets. detect_frame example_env new_detector (example_frame 480 0) =
             (\<lparr>detections = dets, inference_time = 1 / 50,
               frame_shape = Some (480, 640, 3),
               model_confidence = Some confidence_threshold, error_msg = None\<rparr>,
              \<lparr>total_inferences = 1, total_inference_time = 1 / 50\<rparr>) \<and>
           map det_id dets = [0, 1])"
proof -
  let ?rows = "[((100, 100, 200, 200), 9 / 10, 0), ((10, 10, 50, 50), 8 / 10, 32),
                ((0, 0, 5, 5), 6 / 10, 7)] :: raw_box list"
  have y2: "yolo example_env (example_frame 480 2) confidence_threshold iou_threshold
     = Inl (ModelError ''inference failed'')"
    by (simp add: example_env_def)
  have y0: "yolo example_env (example_frame 480 0) confidence_threshold iou_threshold
     = Inr [Some ?rows]"
    by (simp add: example_env_def)
  have n0: "yolo nameless_env (example_frame 480 0) confidence_threshold iou_threshold
     = Inr [Some ?rows]"
    by (simp add: nameless_env_def example_env_def)
  have fb: "first_boxes [Some ?rows] = ?rows" by (simp add: first_boxes_def)
  have res: "list_all (resolvable example_env) (first_boxes [Some ?rows])"
    unfolding fb by (simp add: resolvable_def kept_def sports_classes_def example_env_def)
  have unres: "\<not> list_all (resolvable nameless_env) (first_boxes [Some ?rows])"
    unfolding fb by (simp add: resolvable_def kept_def sports_classes_def nameless_env_def)
  have el: "detect_elapsed example_env f = 1 / 50" "detect_elapsed nameless_env f = 1 / 50" for f
    by (simp_all add: nameless_env_def example_env_def)
  note a = detect_frame_never_raises[of example_env "example_frame 480 2" new_detector]
  note b = detect_frame_never_raises[of nameless_env "example_frame 480 0" new_detector]
  note c = detect_frame_never_raises[of example_env "example_frame 480 0" new_detector]
  from a y2 have 1: "detect_frame example_env new_detector (example_frame 480 2) =
     (\<lparr>detections = [], inference_time = 1 / 50, frame_shape = None,
       model_confidence = None, error_msg = Some ''inference failed''\<rparr>, new_detector)"
    by (simp add: el str_error_def)
  from b n0 unres have 2: "detect_frame nameless_env new_detector (example_frame 480 0) =
     (\<lparr>detections = [], inference_time = 1 / 50, frame_shape = None,
       model_confidence = None, error_msg = Some ''names''\<rparr>, new_detector)"
    by (simp add: el str_error_def)
  from c y0 res obtain dets where d: "detect_frame example_env new_detector (example_frame 480 0) =
           (\<lparr>detections = dets, inference_time = detect_elapsed example_env (example_frame 480 0),
             frame_shape = Some (rows (example_frame 480 0), cols (example_frame 480 0), 3),
             model_confidence = Some confidence_threshold, error_msg = None\<rparr>,
            new_detector\<lparr>total_inferences := total_inferences new_detector + 1,
              total_inference_time := total_inference_time new_detector
                 + detect_elapsed example_env (example_frame 480 0)\<rparr>)"
    and ids: "map det_id dets =
           filter (\<lambda>i. kept (first_boxes [Some ?rows] ! i)) [0..<length (first_boxes [Some ?rows])]"
    by blast
  have ids': "map det_id dets = [0, 1]"
    unfolding ids fb by (simp add: kept_def sports_classes_def upt_conv_Cons del: upt_Suc)
  have 3: "\<exists>dets. detect_frame example_env new_detector (example_frame 480 0) =
             (\<lparr>detections = dets, inference_time = 1 / 50,
               frame_shape = Some (480, 640, 3),
               model_confidence = Some confidence_threshold, error_msg = None\<rparr>,
              \<lparr>total_inferences = 1, total_inference_time = 1 / 50\<rparr>) \<and>
           map det_id dets = [0, 1]"
    using d ids' by (simp add: el new_detector_def example_frame_def)
  show ?thesis using y2 1 n0 unres 2 y0 res 3 by blast
qed

subsection \<open>The submission check and the label geometry\<close>

lemma endswith_iff: "endswith s suf \<longleftrightarrow> (\<exists>p. s = p @ suf)"
proof
  assume "endswith s suf"
  then have "s = take (length s - length suf) s @ suf"
    by (metis append_take_drop_id endswith_def)
  then show "\<exists>p. s = p @ suf" ..
next
  assume "\<exists>p. s = p @ suf"
  then show "endswith s suf" by (auto simp: endswith_def)
qed

lemma extension_append:
  "CHR ''.'' \<notin> set e \<Longrightarrow> extension (p @ CHR ''.'' # e) = Some e"
proof -
  assume e: "CHR ''.'' \<notin> set e"
  have "takeWhile (\<lambda>c. c \<noteq> CHR ''.'') (rev e @ CHR ''.'' # rev p) = rev e"
    using e by (subst takeWhile_append2) auto
  then show ?thesis by (simp add: extension_def)
qed

lemma extension_Some:
  assumes "extension s = Some e"
  shows "\<exists>p. s = p @ CHR ''.'' # e"
proof -
  from assms have dot: "CHR ''.'' \<in> set s"
    and e: "e = rev (takeWhile (\<lambda>c. c \<noteq> CHR ''.'') (rev s))"
    by (auto simp: extension_def split: if_splits)
  let ?P = "\<lambda>c. c \<noteq> CHR ''.''"
  have ne: "dropWhile ?P (rev s) \<noteq> []"
    using dot by (simp add: dropWhile_eq_Nil_conv)
  then have hd: "hd (dropWhile ?P (rev s)) = CHR ''.''"
    using hd_dropWhile[of ?P "rev s"] by simp
  from ne hd obtain rest where d: "dropWhile ?P (rev s) = CHR ''.'' # rest"
    by (cases "dropWhile ?P (rev s)") auto
  have "rev s = takeWhile ?P (rev s) @ dropWhile ?P (rev s)" by simp
  then have "rev s = rev e @ CHR ''.'' # rest" by (simp add: e d)
  then have "s = rev (rev e @ CHR ''.'' # rest)" by (metis rev_rev_ident)
  then have "s = rev rest @ CHR ''.'' # e" by simp
  then show ?thesis ..
qed

lemma endswith_extension:
  "CHR ''.'' \<notin> set e \<Longrightarrow> endswith s (CHR ''.'' # e) \<longleftrightarrow> extension s = Some e"
  using extension_Some[of s e] extension_append[of e] by (auto simp: endswith_iff)

lemma video_suffix_check:
  "endswith_any (py_lower E name) video_suffixes \<longleftrightarrow> has_allowed_extension E name"
proof -
  have a: "\<And>s. endswith s ''.mp4'' \<longleftrightarrow> extension s = Some ''mp4''"
    using endswith_extension[of "''mp4''"] by simp
  have b: "\<And>s. endswith s ''.avi'' \<longleftrightarrow> extension s = Some ''avi''"
    using endswith_extension[of "''avi''"] by simp
  have c: "\<And>s. endswith s ''.mov'' \<longleftrightarrow> extension s = Some ''mov''"
    using endswith_extension[of "''mov''"] by simp
  have d: "\<And>s. endswith s ''.mkv'' \<longleftrightarrow> extension s = Some ''mkv''"
    using endswith_extension[of "''mkv''"] by simp
  show ?thesis
    unfolding endswith_any_def video_suffixes_def has_allowed_extension_def allowed_extensions_def
    by (cases "extension (py_lower E name)") (auto simp: a b c d)
qed

lemma example_extensions:
  "\<not> has_allowed_extension example_env ''clip.txt''"
  "has_allowed_extension example_env ''Clip.MP4''"
  by (simp_all add: has_allowed_extension_def extension_def allowed_extensions_def
      example_env_def ascii_lower_def lower_char_def)


text \<open>
  C9, as amended. A file name whose extension, compared without regard to case (after
  \<^verbatim>\<open>str.lower\<close>), is not one of mp4, avi, mov, mkv is rejected before anything is
  persisted or scheduled: the state of the server is unchanged, and the outcome is status
  400 when the detector is loaded and status 503 when it is not. With the detector loaded,
  a file name with an allowed extension is not rejected with status 400, and is accepted
  when the upload can be written.
\<close>

theorem unsupported_format_rejected:
  "(\<not> has_allowed_extension E filename \<longrightarrow>
      snd (detect_objects_video E writable timestamp srv filename content) = srv \<and>
      fst (detect_objects_video E writable timestamp srv filename content) =
        (if detector_loaded srv then Inl (HTTPException 400 ''Invalid video format'')
         else Inl (HTTPException 503 ''Model not loaded''))) \<and>
   (has_allowed_extension E filename \<and> detector_loaded srv \<longrightarrow>
      fst (detect_objects_video E writable timestamp srv filename content) \<noteq>
        Inl (HTTPException 400 ''Invalid video format'') \<and>
      (writable (''app/static/uploads/'' @ str_int E timestamp @ ''_'' @ filename) \<longrightarrow>
         (\<exists>r. fst (detect_objects_video E writable timestamp srv filename content) = Inr r)))"
  by (simp add: detect_objects_video_def video_suffix_check Let_def)

theorem unsupported_format_rejected_witness:
  "\<not> has_allowed_extension example_env ''clip.txt'' \<and>
   has_allowed_extension example_env ''Clip.MP4'' \<and>
   detector_loaded \<lparr>detector_loaded = True, uploads = [], tasks = []\<rparr> \<and>
   detect_objects_video example_env (\<lambda>path. True) 7
       \<lparr>detector_loaded = True, uploads = [], tasks = []\<rparr> ''clip.txt'' ''abc'' =
     (Inl (HTTPException 400 ''Invalid video format''),
      \<lparr>detector_loaded = True, uploads = [], tasks = []\<rparr>) \<and>
   (\<exists>r. fst (detect_objects_video example_env (\<lambda>path. True) 7
              \<lparr>detector_loaded = True, uploads = [], tasks = []\<rparr> ''Clip.MP4'' ''abc'') = Inr r)"
proof -
  let ?srv = "\<lparr>detector_loaded = True, uploads = [], tasks = []\<rparr>"
  note a = unsupported_format_rejected[of example_env "''clip.txt''" "\<lambda>path. True" 7 ?srv "''abc''"]
  note b = unsupported_format_rejected[of example_env "''Clip.MP4''" "\<lambda>path. True" 7 ?srv "''abc''"]
  from a example_extensions(1)
  have 1: "detect_objects_video example_env (\<lambda>path. True) 7 ?srv ''clip.txt'' ''abc'' =
     (Inl (HTTPException 400 ''Invalid video format''), ?srv)"
    by (simp add: prod_eq_iff)
  from b example_extensions(2)
  have 2: "\<exists>r. fst (detect_objects_video example_env (\<lambda>path. True) 7 ?srv ''Clip.MP4'' ''abc'') = Inr r"
    by simp
  show ?thesis using 1 2 example_extensions by simp
qed

theorem unsupported_format_rejected_counterexample:
  "\<not> has_allowed_extension example_env ''clip.txt'' \<and>
   fst (detect_objects_video example_env (\<lambda>path. True) 7
          \<lparr>detector_loaded = False, uploads = [], tasks = []\<rparr> ''clip.txt'' ''abc'') =
     Inl (HTTPException 503 ''Model not loaded'') \<and>
   \<not> (400 \<le> (503::nat) \<and> (503::nat) < 500)"
  by (simp add: example_extensions detect_objects_video_def)



end
